theory Spec2Isabelle
  imports Complex_Main "HOL-Library.Word"
begin

section \<open>The Game Blaster (C/MS) device: data model\<close>

text \<open>
  The model follows \<^verbatim>\<open>src/hardware/gameblaster.cpp\<close>. The class \<^verbatim>\<open>GameBlaster\<close> is a
  record, every member function takes the record and returns the updated one, and every
  \<^verbatim>\<open>assert\<close> of the source is a branch that returns an error.

  The SAA-1099 chip, the sinc resampler and the mixer channel are not part of the given
  sources. Their state is a type variable (\<open>'d\<close>, \<open>'r\<close>, \<open>'c\<close>) and their member functions
  are the fields of the record \<open>collaborators\<close>, so every statement below holds for any
  implementation of them.
\<close>

type_synonym io_port_t = "16 word"
type_synonym io_val_t = "32 word"
type_synonym uint8_t = "8 word"
type_synonym int16_t = "16 word"

text \<open>
  \<^verbatim>\<open>PIC_FullIndex()\<close> and \<^verbatim>\<open>last_rendered_ms\<close> are doubles in the source. The model takes
  them as exact rationals: rounding of the additions is not modelled.
\<close>

type_synonym millis = rat

text \<open>
  Modelled from the spec: \<^verbatim>\<open>ms_per_render\<close> is a constant of \<^verbatim>\<open>gameblaster.h\<close>, which is not
  among the sources. The spec calls it the render-quantum, a fixed and positive increment
  of time, so it is a parameter taken from the positive rationals.
\<close>

typedef render_quantum = "{q :: rat. 0 < q}"
  by (rule exI [of _ 1]) simp

setup_lifting type_definition_render_quantum

lift_definition quantum_ms :: "render_quantum \<Rightarrow> millis" is "\<lambda>q. q" .

datatype error =
    Assert_not_open
  | Assert_check_cast
  | Assert_valid_port
  | Assert_channel
  | Assert_ready_agree
  | Null_dereference

datatype FilterState = Off | On

datatype log_entry =
    Warning_invalid_cms_filter string
  | Msg_running_on_port io_port_t
  | Info_shutting_down

text \<open>
  An \<^verbatim>\<open>AudioFrame\<close> holds two floats. The only values the device stores in one are
  \<^verbatim>\<open>static_cast<float>\<close> of the resampler's integer output, so a frame is modelled by the
  two integers.
\<close>

record AudioFrame =
  left :: int
  right :: int

definition zero_frame :: AudioFrame where
  "zero_frame = \<lparr>left = 0, right = 0\<rparr>"

record ('d, 'r, 'c) collaborators =
  new_saa1099_device :: 'd
  sound_stream_update :: "'d \<Rightarrow> (int16_t \<times> int16_t) \<times> 'd"
  data_w :: "uint8_t \<Rightarrow> 'd \<Rightarrow> 'd"
  control_w :: "uint8_t \<Rightarrow> 'd \<Rightarrow> 'd"
  resampler_create :: "int \<Rightarrow> rat \<Rightarrow> 'r"
  resampler_input :: "int \<Rightarrow> 'r \<Rightarrow> bool \<times> 'r"
  resampler_output :: "'r \<Rightarrow> int"
  MIXER_AddChannel :: 'c
  WakeUp :: "'c \<Rightarrow> bool \<times> 'c"
  AddSamples_sfloat :: "AudioFrame \<Rightarrow> 'c \<Rightarrow> 'c"
  Enable :: "bool \<Rightarrow> 'c \<Rightarrow> 'c"
  ConfigureLowPassFilter :: "nat \<Rightarrow> nat \<Rightarrow> 'c \<Rightarrow> 'c"
  SetLowPassFilter :: "FilterState \<Rightarrow> 'c \<Rightarrow> 'c"
  TryParseAndSetCustomFilter :: "string \<Rightarrow> 'c \<Rightarrow> bool \<times> 'c"
  GetSampleRate :: "'c \<Rightarrow> int"
  parse_bool_setting :: "string \<Rightarrow> bool option"
  ms_per_render :: render_quantum

text \<open>
  An \<^verbatim>\<open>IO_ReadHandleObject\<close> or \<^verbatim>\<open>IO_WriteHandleObject\<close> is either not installed or
  installed at a first port for a number of consecutive ports.
\<close>

type_synonym io_handle_object = "(io_port_t \<times> nat) option"

record ('d, 'r, 'c) GameBlaster =
  is_open :: bool
  is_standalone_gameblaster :: bool
  base_port :: io_port_t
  devices_0 :: "'d option"
  devices_1 :: "'d option"
  resamplers_0 :: "'r option"
  resamplers_1 :: "'r option"
  channel :: "'c option"
  fifo :: "AudioFrame list"
  last_rendered_ms :: millis
  cms_detect_register :: uint8_t
  write_handlers_0 :: io_handle_object
  write_handlers_1 :: io_handle_object
  write_handlers_2 :: io_handle_object
  write_handlers_3 :: io_handle_object
  read_handler_for_detection :: io_handle_object
  write_handler_for_detection :: io_handle_object
  log_lines :: "log_entry list"
  section_property :: "string \<times> string \<Rightarrow> string option"

section \<open>Rendering\<close>

text \<open>
  \<^verbatim>\<open>MaybeRenderFrame\<close>: one sample of each chip (the chip writes its left and right sample
  into the two-element buffer, returned here as a pair), the sums in \<^verbatim>\<open>int\<close>, the clock,
  the two resamplers, the assertion that they agree, and the frame when it is ready.
\<close>

definition MaybeRenderFrame ::
  "('d, 'r, 'c) collaborators \<Rightarrow> AudioFrame \<Rightarrow> ('d, 'r, 'c) GameBlaster
     \<Rightarrow> error + (bool \<times> AudioFrame \<times> ('d, 'r, 'c) GameBlaster)" where
  "MaybeRenderFrame env frame s =
     (case devices_0 s of None \<Rightarrow> Inl Null_dereference | Some d0 \<Rightarrow>
      case devices_1 s of None \<Rightarrow> Inl Null_dereference | Some d1 \<Rightarrow>
      case resamplers_0 s of None \<Rightarrow> Inl Null_dereference | Some r0 \<Rightarrow>
      case resamplers_1 s of None \<Rightarrow> Inl Null_dereference | Some r1 \<Rightarrow>
        (let (buf0, d0') = sound_stream_update env d0;
             (buf1, d1') = sound_stream_update env d1;
             left_accum = sint (fst buf0) + sint (fst buf1);
             right_accum = sint (snd buf0) + sint (snd buf1);
             rendered = last_rendered_ms s + quantum_ms (ms_per_render env);
             (l_ready, r0') = resampler_input env left_accum r0;
             (r_ready, r1') = resampler_input env right_accum r1;
             s' = s\<lparr>devices_0 := Some d0', devices_1 := Some d1',
                     resamplers_0 := Some r0', resamplers_1 := Some r1',
                     last_rendered_ms := rendered\<rparr>
         in if l_ready \<noteq> r_ready then Inl Assert_ready_agree
            else if l_ready \<and> r_ready
              then Inr (True, \<lparr>left = resampler_output env r0',
                                right = resampler_output env r1'\<rparr>, s')
              else Inr (False, frame, s')))"

text \<open>
  The loop of \<^verbatim>\<open>RenderUpToNow\<close>: while the clock is behind \<open>now\<close>, add one quantum, render a
  frame (which adds a quantum of its own) and queue the frame when it is ready.
\<close>

function RenderUpToNow_loop ::
  "('d, 'r, 'c) collaborators \<Rightarrow> millis \<Rightarrow> ('d, 'r, 'c) GameBlaster
     \<Rightarrow> error + ('d, 'r, 'c) GameBlaster" where
  "RenderUpToNow_loop env now s =
     (if last_rendered_ms s < now then
        (case MaybeRenderFrame env zero_frame
                (s\<lparr>last_rendered_ms := last_rendered_ms s + quantum_ms (ms_per_render env)\<rparr>) of
           Inl e \<Rightarrow> Inl e
         | Inr (ready, f, s') \<Rightarrow>
             RenderUpToNow_loop env now (if ready then s'\<lparr>fifo := fifo s' @ [f]\<rparr> else s'))
      else Inr s)"
  by pat_completeness auto
termination
proof (relation "measure (\<lambda>(env, now, s).
          nat \<lceil>(now - last_rendered_ms s) / quantum_ms (ms_per_render env)\<rceil>)", goal_cases)
  case 1
  show ?case by simp
next
  case (2 env now s x ready rest f s')
  define q where "q = quantum_ms (ms_per_render env)"
  have q: "0 < q"
    using Rep_render_quantum [of "ms_per_render env"] by (simp add: q_def quantum_ms.rep_eq)
  from 2 have "MaybeRenderFrame env zero_frame
      (s\<lparr>last_rendered_ms := last_rendered_ms s + q\<rparr>) = Inr (ready, f, s')"
    by (simp add: q_def)
  then have clock: "last_rendered_ms s' = last_rendered_ms s + q + q"
    by (auto simp: MaybeRenderFrame_def Let_def q_def split: option.splits prod.splits if_splits)
  have pos: "0 < (now - last_rendered_ms s) / q" using 2(1) q by simp
  have "(now - last_rendered_ms s') / q = (now - last_rendered_ms s) / q - 2"
    using q by (simp add: clock field_simps)
  then have "\<lceil>(now - last_rendered_ms s') / q\<rceil> = \<lceil>(now - last_rendered_ms s) / q\<rceil> - 2"
    by (metis ceiling_diff_numeral)
  moreover have "0 < \<lceil>(now - last_rendered_ms s) / q\<rceil>" using pos by simp
  ultimately show ?case by (auto simp: q_def)
qed

declare RenderUpToNow_loop.simps [simp del]

text \<open>\<^verbatim>\<open>RenderUpToNow\<close>: \<open>now\<close> is the value of \<^verbatim>\<open>PIC_FullIndex()\<close> read at entry.\<close>

definition RenderUpToNow ::
  "('d, 'r, 'c) collaborators \<Rightarrow> millis \<Rightarrow> ('d, 'r, 'c) GameBlaster
     \<Rightarrow> error + ('d, 'r, 'c) GameBlaster" where
  "RenderUpToNow env now s =
     (case channel s of None \<Rightarrow> Inl Assert_channel | Some c \<Rightarrow>
        (let (was_asleep, c') = WakeUp env c;
             s1 = s\<lparr>channel := Some c'\<rparr>
         in if was_asleep then Inr (s1\<lparr>last_rendered_ms := now\<rparr>)
            else RenderUpToNow_loop env now s1))"

section \<open>Register writes\<close>

text \<open>
  Modelled from the spec: \<^verbatim>\<open>check_cast\<close> is declared outside the given sources. Following
  the spec's byte-width port contract it is a checked narrowing: a value that fits the
  target type is cast, any other value fails the assertion.
\<close>

definition check_cast_uint8 :: "io_val_t \<Rightarrow> error + uint8_t" where
  "check_cast_uint8 v = (if unat v \<le> 255 then Inr (ucast v) else Inl Assert_check_cast)"

definition check_cast_io_port :: "int \<Rightarrow> error + io_port_t" where
  "check_cast_io_port v =
     (if 0 \<le> v \<and> v \<le> 65535 then Inr (word_of_int v) else Inl Assert_check_cast)"

definition WriteDataToLeftDevice ::
  "('d, 'r, 'c) collaborators \<Rightarrow> millis \<Rightarrow> io_val_t \<Rightarrow> ('d, 'r, 'c) GameBlaster
     \<Rightarrow> error + ('d, 'r, 'c) GameBlaster" where
  "WriteDataToLeftDevice env now val s =
     (case RenderUpToNow env now s of Inl e \<Rightarrow> Inl e | Inr s1 \<Rightarrow>
      case check_cast_uint8 val of Inl e \<Rightarrow> Inl e | Inr v \<Rightarrow>
      case devices_0 s1 of None \<Rightarrow> Inl Null_dereference
      | Some d \<Rightarrow> Inr (s1\<lparr>devices_0 := Some (data_w env v d)\<rparr>))"

definition WriteControlToLeftDevice ::
  "('d, 'r, 'c) collaborators \<Rightarrow> millis \<Rightarrow> io_val_t \<Rightarrow> ('d, 'r, 'c) GameBlaster
     \<Rightarrow> error + ('d, 'r, 'c) GameBlaster" where
  "WriteControlToLeftDevice env now val s =
     (case RenderUpToNow env now s of Inl e \<Rightarrow> Inl e | Inr s1 \<Rightarrow>
      case check_cast_uint8 val of Inl e \<Rightarrow> Inl e | Inr v \<Rightarrow>
      case devices_0 s1 of None \<Rightarrow> Inl Null_dereference
      | Some d \<Rightarrow> Inr (s1\<lparr>devices_0 := Some (control_w env v d)\<rparr>))"

definition WriteDataToRightDevice ::
  "('d, 'r, 'c) collaborators \<Rightarrow> millis \<Rightarrow> io_val_t \<Rightarrow> ('d, 'r, 'c) GameBlaster
     \<Rightarrow> error + ('d, 'r, 'c) GameBlaster" where
  "WriteDataToRightDevice env now val s =
     (case RenderUpToNow env now s of Inl e \<Rightarrow> Inl e | Inr s1 \<Rightarrow>
      case check_cast_uint8 val of Inl e \<Rightarrow> Inl e | Inr v \<Rightarrow>
      case devices_1 s1 of None \<Rightarrow> Inl Null_dereference
      | Some d \<Rightarrow> Inr (s1\<lparr>devices_1 := Some (data_w env v d)\<rparr>))"

definition WriteControlToRightDevice ::
  "('d, 'r, 'c) collaborators \<Rightarrow> millis \<Rightarrow> io_val_t \<Rightarrow> ('d, 'r, 'c) GameBlaster
     \<Rightarrow> error + ('d, 'r, 'c) GameBlaster" where
  "WriteControlToRightDevice env now val s =
     (case RenderUpToNow env now s of Inl e \<Rightarrow> Inl e | Inr s1 \<Rightarrow>
      case check_cast_uint8 val of Inl e \<Rightarrow> Inl e | Inr v \<Rightarrow>
      case devices_1 s1 of None \<Rightarrow> Inl Null_dereference
      | Some d \<Rightarrow> Inr (s1\<lparr>devices_1 := Some (control_w env v d)\<rparr>))"

section \<open>The audio callback\<close>

text \<open>
  The first loop of \<^verbatim>\<open>AudioCallback\<close>: while frames remain requested and the queue is not
  empty, hand the front frame to the channel and pop it. It returns the frames that
  remain requested.
\<close>

fun AudioCallback_queued ::
  "('d, 'r, 'c) collaborators \<Rightarrow> nat \<Rightarrow> ('d, 'r, 'c) GameBlaster
     \<Rightarrow> error + (nat \<times> ('d, 'r, 'c) GameBlaster)" where
  "AudioCallback_queued env 0 s = Inr (0, s)"
| "AudioCallback_queued env (Suc n) s =
     (case fifo s of
        [] \<Rightarrow> Inr (Suc n, s)
      | f # rest \<Rightarrow>
          (case channel s of None \<Rightarrow> Inl Null_dereference
           | Some c \<Rightarrow>
               AudioCallback_queued env n
                 (s\<lparr>channel := Some (AddSamples_sfloat env f c), fifo := rest\<rparr>)))"

text \<open>
  The second loop: for every frame that remains requested, render once, hand the frame to
  the channel if it is ready, and count the request down either way.
\<close>

fun AudioCallback_render ::
  "('d, 'r, 'c) collaborators \<Rightarrow> nat \<Rightarrow> ('d, 'r, 'c) GameBlaster
     \<Rightarrow> error + ('d, 'r, 'c) GameBlaster" where
  "AudioCallback_render env 0 s = Inr s"
| "AudioCallback_render env (Suc n) s =
     (case MaybeRenderFrame env zero_frame s of
        Inl e \<Rightarrow> Inl e
      | Inr (ready, f, s') \<Rightarrow>
          (if ready then
             (case channel s' of None \<Rightarrow> Inl Null_dereference
              | Some c \<Rightarrow>
                  AudioCallback_render env n (s'\<lparr>channel := Some (AddSamples_sfloat env f c)\<rparr>))
           else AudioCallback_render env n s'))"

text \<open>\<^verbatim>\<open>AudioCallback\<close>: \<open>now\<close> is the value of \<^verbatim>\<open>PIC_FullIndex()\<close> read at the end.\<close>

definition AudioCallback ::
  "('d, 'r, 'c) collaborators \<Rightarrow> millis \<Rightarrow> 16 word \<Rightarrow> ('d, 'r, 'c) GameBlaster
     \<Rightarrow> error + ('d, 'r, 'c) GameBlaster" where
  "AudioCallback env now requested_frames s =
     (case channel s of None \<Rightarrow> Inl Assert_channel | Some c0 \<Rightarrow>
      case AudioCallback_queued env (unat requested_frames) s of
        Inl e \<Rightarrow> Inl e
      | Inr (frames_remaining, s1) \<Rightarrow>
          (case AudioCallback_render env frames_remaining s1 of
             Inl e \<Rightarrow> Inl e
           | Inr s2 \<Rightarrow> Inr (s2\<lparr>last_rendered_ms := now\<rparr>)))"

text \<open>
  The frames of live rendering as a list, for comparison with the second loop: \<open>n\<close> steps
  of the one-frame render primitive, each giving its frame when it is ready. It returns
  the frames in the order they were made and does not touch the channel.
\<close>

fun live_render ::
  "('d, 'r, 'c) collaborators \<Rightarrow> nat \<Rightarrow> ('d, 'r, 'c) GameBlaster
     \<Rightarrow> error + (AudioFrame list \<times> ('d, 'r, 'c) GameBlaster)" where
  "live_render env 0 s = Inr ([], s)"
| "live_render env (Suc n) s =
     (case MaybeRenderFrame env zero_frame s of
        Inl e \<Rightarrow> Inl e
      | Inr (ready, f, s') \<Rightarrow>
          (case live_render env n s' of
             Inl e \<Rightarrow> Inl e
           | Inr (fs, s'') \<Rightarrow> Inr ((if ready then [f] else []) @ fs, s'')))"

section \<open>The detection register\<close>

text \<open>
  \<^verbatim>\<open>port - base_port\<close> subtracts two \<^verbatim>\<open>uint16_t\<close> after promotion to \<^verbatim>\<open>int\<close>: the difference
  is the integer one, negative when the port lies below the base.
\<close>

definition WriteToDetectionPort ::
  "io_port_t \<Rightarrow> io_val_t \<Rightarrow> ('d, 'r, 'c) GameBlaster \<Rightarrow> error + ('d, 'r, 'c) GameBlaster" where
  "WriteToDetectionPort port val s =
     (let offset = uint port - uint (base_port s)
      in if offset = 0x6 \<or> offset = 0x7
         then (case check_cast_uint8 val of Inl e \<Rightarrow> Inl e
               | Inr v \<Rightarrow> Inr (s\<lparr>cms_detect_register := v\<rparr>))
         else Inr s)"

definition ReadFromDetectionPort :: "io_port_t \<Rightarrow> ('d, 'r, 'c) GameBlaster \<Rightarrow> uint8_t" where
  "ReadFromDetectionPort port s =
     (let offset = uint port - uint (base_port s)
      in if offset = 0x4 then 0x7f
         else if offset = 0xa \<or> offset = 0xb then cms_detect_register s
         else 0xff)"

section \<open>Open and Close\<close>

text \<open>
  Modelled from the spec: \<^verbatim>\<open>Install\<close>, \<^verbatim>\<open>Uninstall\<close> and the dispatch of a port access to
  the installed handler belong to the I/O port layer, which is not among the sources.
  The spec describes it as registration and unregistration of byte-width read and write
  handlers over an address range: a handle object installed at a port with a range
  handles that many consecutive ports, starting at the port.
\<close>

definition Install :: "io_port_t \<Rightarrow> nat \<Rightarrow> io_handle_object" where
  "Install port len = Some (port, len)"

definition Uninstall :: io_handle_object where
  "Uninstall = None"

definition handles :: "io_handle_object \<Rightarrow> io_port_t \<Rightarrow> bool" where
  "handles h port =
     (case h of None \<Rightarrow> False
      | Some (first, len) \<Rightarrow> unat first \<le> unat port \<and> unat port < unat first + len)"

text \<open>
  \<^verbatim>\<open>Close\<close>. \<^verbatim>\<open>MIXER_DeregisterChannel\<close> acts on the mixer's own list of channels, which is
  outside the device; the device drops its reference.
\<close>

definition Close ::
  "('d, 'r, 'c) collaborators \<Rightarrow> ('d, 'r, 'c) GameBlaster \<Rightarrow> error + ('d, 'r, 'c) GameBlaster" where
  "Close env s =
     (if \<not> is_open s then Inr s
      else
        (let s1 = s\<lparr>log_lines := log_lines s @ [Info_shutting_down],
                    write_handlers_0 := Uninstall, write_handlers_1 := Uninstall,
                    write_handlers_2 := Uninstall, write_handlers_3 := Uninstall,
                    write_handler_for_detection := Uninstall,
                    read_handler_for_detection := Uninstall\<rparr>;
             s2 = (case channel s1 of None \<Rightarrow> s1
                   | Some c \<Rightarrow> s1\<lparr>channel := Some (Enable env False c)\<rparr>)
         in case channel s2 of None \<Rightarrow> Inl Assert_channel
            | Some c \<Rightarrow>
                Inr (s2\<lparr>channel := None, devices_0 := None, devices_1 := None,
                        resamplers_0 := None, resamplers_1 := None, is_open := False\<rparr>)))"

definition valid_gb_ports :: "io_port_t list" where
  "valid_gb_ports = [0x210, 0x220, 0x230, 0x240, 0x250, 0x260]"

definition valid_cms_ports :: "io_port_t list" where
  "valid_cms_ports = [0x220, 0x240, 0x260, 0x280, 0x2a0, 0x2c0, 0x2e0, 0x300]"

text \<open>The lambda \<^verbatim>\<open>enable_filter\<close> of \<^verbatim>\<open>Open\<close>.\<close>

definition enable_filter :: "('d, 'r, 'c) collaborators \<Rightarrow> 'c \<Rightarrow> 'c" where
  "enable_filter env c = SetLowPassFilter env On (ConfigureLowPassFilter env 1 6000 c)"

text \<open>
  The filter choice of \<^verbatim>\<open>Open\<close>, on the channel \<open>c\<close> that \<^verbatim>\<open>MIXER_AddChannel\<close> returned.
\<close>

definition Open_filter ::
  "('d, 'r, 'c) collaborators \<Rightarrow> string \<Rightarrow> 'c \<Rightarrow> ('d, 'r, 'c) GameBlaster
     \<Rightarrow> ('d, 'r, 'c) GameBlaster" where
  "Open_filter env filter_choice c s =
     (case parse_bool_setting env filter_choice of
        Some b \<Rightarrow>
          (if b then s\<lparr>channel := Some (enable_filter env c)\<rparr>
           else s\<lparr>channel := Some (SetLowPassFilter env Off c)\<rparr>)
      | None \<Rightarrow>
          (let (parsed, c') = TryParseAndSetCustomFilter env filter_choice c
           in if \<not> parsed
              then s\<lparr>log_lines := log_lines s @ [Warning_invalid_cms_filter filter_choice],
                     section_property :=
                       (section_property s)((''sblaster'', ''cms_filter'') := Some ''on''),
                     channel := Some (enable_filter env c')\<rparr>
              else s\<lparr>channel := Some c'\<rparr>))"

text \<open>
  The resamplers of \<^verbatim>\<open>Open\<close>, made from the channel's sample rate. \<^verbatim>\<open>render_rate_hz\<close> is a
  constant of the header and part of \<open>resampler_create\<close>; \<^verbatim>\<open>max_freq\<close> is a double in the
  source and an exact rational here.
\<close>

definition max_freq :: "int \<Rightarrow> rat" where
  "max_freq frame_rate_hz = max (of_int frame_rate_hz * (9 / 10) / 2) 8000"

definition Open_resamplers ::
  "('d, 'r, 'c) collaborators \<Rightarrow> ('d, 'r, 'c) GameBlaster
     \<Rightarrow> error + ('d, 'r, 'c) GameBlaster" where
  "Open_resamplers env s =
     (case channel s of None \<Rightarrow> Inl Null_dereference
      | Some c \<Rightarrow>
          (let frame_rate_hz = GetSampleRate env c;
               r = resampler_create env frame_rate_hz (max_freq frame_rate_hz)
           in Inr (s\<lparr>resamplers_0 := Some r, resamplers_1 := Some r\<rparr>)))"

text \<open>The two chips of \<^verbatim>\<open>Open\<close>, created and started.\<close>

definition Open_devices ::
  "('d, 'r, 'c) collaborators \<Rightarrow> ('d, 'r, 'c) GameBlaster \<Rightarrow> ('d, 'r, 'c) GameBlaster" where
  "Open_devices env s =
     s\<lparr>devices_0 := Some (new_saa1099_device env),
       devices_1 := Some (new_saa1099_device env)\<rparr>"

text \<open>
  The handlers of \<^verbatim>\<open>Open\<close>: the four write handlers always, the detection handlers only
  for the standalone Game Blaster.
\<close>

definition Open_handlers :: "('d, 'r, 'c) GameBlaster \<Rightarrow> ('d, 'r, 'c) GameBlaster" where
  "Open_handlers s =
     (let s' = s\<lparr>write_handlers_0 := Install (base_port s) 1,
                  write_handlers_1 := Install (base_port s + 1) 1,
                  write_handlers_2 := Install (base_port s + 2) 1,
                  write_handlers_3 := Install (base_port s + 3) 1\<rparr>
      in if is_standalone_gameblaster s'
         then s'\<lparr>read_handler_for_detection := Install (base_port s') 16,
                 write_handler_for_detection := Install (base_port s' + 4) 12\<rparr>
         else s')"

text \<open>
  \<^verbatim>\<open>Open\<close>. The device is returned only when no assertion fails. The last five assertions
  of the source (channel, devices and resamplers are not null) hold of what was just
  created and have no branch here.
\<close>

definition Open ::
  "('d, 'r, 'c) collaborators \<Rightarrow> int \<Rightarrow> string \<Rightarrow> string \<Rightarrow> ('d, 'r, 'c) GameBlaster
     \<Rightarrow> error + ('d, 'r, 'c) GameBlaster" where
  "Open env port_choice card_choice filter_choice s0 =
     (case Close env s0 of Inl e \<Rightarrow> Inl e | Inr s1 \<Rightarrow>
      if is_open s1 then Inl Assert_not_open
      else
        (let s2 = s1\<lparr>is_standalone_gameblaster := (card_choice = ''gb'')\<rparr>;
             valid_ports = (if is_standalone_gameblaster s2 then valid_gb_ports
                            else valid_cms_ports)
         in case check_cast_io_port port_choice of Inl e \<Rightarrow> Inl e | Inr port \<Rightarrow>
            (let s3 = s2\<lparr>base_port := port\<rparr>
             in if base_port s3 \<notin> set valid_ports then Inl Assert_valid_port
                else
                  (case Open_resamplers env
                          (Open_filter env filter_choice (MIXER_AddChannel env)
                             (Open_handlers (Open_devices env s3))) of
                     Inl e \<Rightarrow> Inl e
                   | Inr s4 \<Rightarrow>
                       Inr (s4\<lparr>log_lines := log_lines s4 @ [Msg_running_on_port (base_port s4)],
                               is_open := True\<rparr>)))))"

section \<open>Port dispatch\<close>

text \<open>
  A byte write to a port goes to the handler whose handle object handles the port (the
  one installed last when several do), a byte read likewise. A port that no handle
  object of this device handles is not this device's: the write leaves it as it is, the
  read has no value from it.
\<close>

definition IO_WriteB ::
  "('d, 'r, 'c) collaborators \<Rightarrow> millis \<Rightarrow> io_port_t \<Rightarrow> io_val_t \<Rightarrow> ('d, 'r, 'c) GameBlaster
     \<Rightarrow> error + ('d, 'r, 'c) GameBlaster" where
  "IO_WriteB env now port val s =
     (if handles (write_handler_for_detection s) port then WriteToDetectionPort port val s
      else if handles (write_handlers_3 s) port then WriteControlToRightDevice env now val s
      else if handles (write_handlers_2 s) port then WriteDataToRightDevice env now val s
      else if handles (write_handlers_1 s) port then WriteControlToLeftDevice env now val s
      else if handles (write_handlers_0 s) port then WriteDataToLeftDevice env now val s
      else Inr s)"

definition IO_ReadB :: "io_port_t \<Rightarrow> ('d, 'r, 'c) GameBlaster \<Rightarrow> uint8_t option" where
  "IO_ReadB port s =
     (if handles (read_handler_for_detection s) port then Some (ReadFromDetectionPort port s)
      else None)"

section \<open>Runs of the device\<close>

text \<open>
  What happens to an open device: the guest writes a byte to a port at some time, or the
  mixer asks for frames. A run is a list of such events, stopped by the first failure.
\<close>

datatype event =
    Port_write millis io_port_t io_val_t
  | Mixer_callback millis "16 word"

fun step ::
  "('d, 'r, 'c) collaborators \<Rightarrow> event \<Rightarrow> ('d, 'r, 'c) GameBlaster
     \<Rightarrow> error + ('d, 'r, 'c) GameBlaster" where
  "step env (Port_write now port val) s = IO_WriteB env now port val s"
| "step env (Mixer_callback now requested_frames) s = AudioCallback env now requested_frames s"

fun run ::
  "('d, 'r, 'c) collaborators \<Rightarrow> event list \<Rightarrow> ('d, 'r, 'c) GameBlaster
     \<Rightarrow> error + ('d, 'r, 'c) GameBlaster" where
  "run env [] s = Inr s"
| "run env (ev # evs) s =
     (case step env ev s of Inl e \<Rightarrow> Inl e | Inr s' \<Rightarrow> run env evs s')"

text \<open>
  The states \<^verbatim>\<open>Open\<close> is called in: an open device has its channel, a device that is not
  open has no detection handler installed.
\<close>

definition consistent :: "('d, 'r, 'c) GameBlaster \<Rightarrow> bool" where
  "consistent s =
     (if is_open s then channel s \<noteq> None
      else read_handler_for_detection s = None \<and> write_handler_for_detection s = None)"

text \<open>
  What \<^verbatim>\<open>Open\<close> sets up and a run keeps: the device is open, with its base port, the
  four write handlers on the first four ports, the detection handlers of the standalone
  card, and the chips, the resamplers and the channel in place.
\<close>

definition installed_at :: "io_port_t \<Rightarrow> bool \<Rightarrow> ('d, 'r, 'c) GameBlaster \<Rightarrow> bool" where
  "installed_at b standalone s =
     (is_open s
      \<and> base_port s = b
      \<and> write_handlers_0 s = Install b 1
      \<and> write_handlers_1 s = Install (b + 1) 1
      \<and> write_handlers_2 s = Install (b + 2) 1
      \<and> write_handlers_3 s = Install (b + 3) 1
      \<and> read_handler_for_detection s = (if standalone then Install b 16 else None)
      \<and> write_handler_for_detection s = (if standalone then Install (b + 4) 12 else None)
      \<and> devices_0 s \<noteq> None \<and> devices_1 s \<noteq> None
      \<and> resamplers_0 s \<noteq> None \<and> resamplers_1 s \<noteq> None
      \<and> channel s \<noteq> None)"

section \<open>A small instance of the collaborators\<close>

text \<open>
  A chip that plays the last data byte on both sides and counts the samples it rendered,
  a resampler that keeps every second input, and a channel that records what it is
  given. The statements about the device hold for any collaborators; these are the ones
  the concrete runs below use.
\<close>

record toy_chip =
  tc_level :: int16_t
  tc_control :: uint8_t
  tc_rendered :: nat

record toy_resampler =
  tr_phase :: nat
  tr_held :: int

record toy_channel =
  tm_asleep :: bool
  tm_enabled :: bool
  tm_received :: "AudioFrame list"
  tm_lowpass :: "(nat \<times> nat) option"
  tm_lowpass_state :: "FilterState option"
  tm_custom_filter :: "string option"

lift_definition one_ms :: render_quantum is 1
  by simp

definition toy_input :: "int \<Rightarrow> toy_resampler \<Rightarrow> bool \<times> toy_resampler" where
  "toy_input x r =
     (if tr_phase r = 1 then (True, \<lparr>tr_phase = 0, tr_held = x\<rparr>)
      else (False, \<lparr>tr_phase = 1, tr_held = tr_held r\<rparr>))"

definition toy_parse_bool :: "string \<Rightarrow> bool option" where
  "toy_parse_bool str =
     (if str = ''on'' \<or> str = ''true'' then Some True
      else if str = ''off'' \<or> str = ''false'' then Some False
      else None)"

definition toy_custom_filter :: "string \<Rightarrow> toy_channel \<Rightarrow> bool \<times> toy_channel" where
  "toy_custom_filter str c =
     (if str = ''lpf 2 8000'' then (True, c\<lparr>tm_custom_filter := Some str\<rparr>) else (False, c))"

definition toy_new_channel :: toy_channel where
  "toy_new_channel =
     \<lparr>tm_asleep = True, tm_enabled = False, tm_received = [], tm_lowpass = None,
      tm_lowpass_state = None, tm_custom_filter = None\<rparr>"

definition toy_env :: "(toy_chip, toy_resampler, toy_channel) collaborators" where
  "toy_env =
     \<lparr>new_saa1099_device = \<lparr>tc_level = 0, tc_control = 0, tc_rendered = 0\<rparr>,
      sound_stream_update =
        (\<lambda>d. ((tc_level d, tc_level d), d\<lparr>tc_rendered := Suc (tc_rendered d)\<rparr>)),
      data_w = (\<lambda>v d. d\<lparr>tc_level := ucast v\<rparr>),
      control_w = (\<lambda>v d. d\<lparr>tc_control := v\<rparr>),
      resampler_create = (\<lambda>rate max_freq. \<lparr>tr_phase = 0, tr_held = 0\<rparr>),
      resampler_input = toy_input,
      resampler_output = tr_held,
      MIXER_AddChannel = toy_new_channel,
      WakeUp = (\<lambda>c. (tm_asleep c, c\<lparr>tm_asleep := False, tm_enabled := True\<rparr>)),
      AddSamples_sfloat = (\<lambda>f c. c\<lparr>tm_received := tm_received c @ [f]\<rparr>),
      Enable = (\<lambda>b c. c\<lparr>tm_enabled := b\<rparr>),
      ConfigureLowPassFilter = (\<lambda>order cutoff c. c\<lparr>tm_lowpass := Some (order, cutoff)\<rparr>),
      SetLowPassFilter = (\<lambda>st c. c\<lparr>tm_lowpass_state := Some st\<rparr>),
      TryParseAndSetCustomFilter = toy_custom_filter,
      GetSampleRate = (\<lambda>c. 48000),
      parse_bool_setting = toy_parse_bool,
      ms_per_render = one_ms\<rparr>"

text \<open>
  The device before its first \<^verbatim>\<open>Open\<close>. The initial values of the members are in the
  header; no statement below depends on them.
\<close>

definition closed_device :: "(toy_chip, toy_resampler, toy_channel) GameBlaster" where
  "closed_device =
     \<lparr>is_open = False, is_standalone_gameblaster = False, base_port = 0,
      devices_0 = None, devices_1 = None, resamplers_0 = None, resamplers_1 = None,
      channel = None, fifo = [], last_rendered_ms = 0, cms_detect_register = 0xff,
      write_handlers_0 = None, write_handlers_1 = None, write_handlers_2 = None,
      write_handlers_3 = None, read_handler_for_detection = None,
      write_handler_for_detection = None, log_lines = [],
      section_property = (\<lambda>k. None)\<rparr>"

text \<open>
  The device after \<^verbatim>\<open>Open\<close> as a standalone Game Blaster at port 220h with the filter
  setting \<open>on\<close>: the new channel is asleep.
\<close>

definition opened_device :: "(toy_chip, toy_resampler, toy_channel) GameBlaster" where
  "opened_device =
     \<lparr>is_open = True, is_standalone_gameblaster = True, base_port = 0x220,
      devices_0 = Some \<lparr>tc_level = 0, tc_control = 0, tc_rendered = 0\<rparr>,
      devices_1 = Some \<lparr>tc_level = 0, tc_control = 0, tc_rendered = 0\<rparr>,
      resamplers_0 = Some \<lparr>tr_phase = 0, tr_held = 0\<rparr>,
      resamplers_1 = Some \<lparr>tr_phase = 0, tr_held = 0\<rparr>,
      channel = Some \<lparr>tm_asleep = True, tm_enabled = False, tm_received = [],
                       tm_lowpass = Some (1, 6000), tm_lowpass_state = Some On,
                       tm_custom_filter = None\<rparr>,
      fifo = [], last_rendered_ms = 0, cms_detect_register = 0xff,
      write_handlers_0 = Some (0x220, 1), write_handlers_1 = Some (0x221, 1),
      write_handlers_2 = Some (0x222, 1), write_handlers_3 = Some (0x223, 1),
      read_handler_for_detection = Some (0x220, 16),
      write_handler_for_detection = Some (0x224, 12),
      log_lines = [Msg_running_on_port 0x220],
      section_property = (\<lambda>k. None)\<rparr>"

text \<open>The same device once its channel was woken up, at time 0.\<close>

definition awake_channel :: toy_channel where
  "awake_channel =
     \<lparr>tm_asleep = False, tm_enabled = True, tm_received = [],
      tm_lowpass = Some (1, 6000), tm_lowpass_state = Some On, tm_custom_filter = None\<rparr>"

definition awake_device :: "(toy_chip, toy_resampler, toy_channel) GameBlaster" where
  "awake_device = opened_device\<lparr>channel := Some awake_channel\<rparr>"

text \<open>The awake device with two sounding chips and both resamplers about to deliver.\<close>

definition sounding_device :: "(toy_chip, toy_resampler, toy_channel) GameBlaster" where
  "sounding_device =
     awake_device\<lparr>devices_0 := Some \<lparr>tc_level = 100, tc_control = 0, tc_rendered = 0\<rparr>,
                  devices_1 := Some \<lparr>tc_level = - 3, tc_control = 0, tc_rendered = 0\<rparr>,
                  resamplers_0 := Some \<lparr>tr_phase = 1, tr_held = 0\<rparr>,
                  resamplers_1 := Some \<lparr>tr_phase = 1, tr_held = 0\<rparr>\<rparr>"

text \<open>
  The awake device after \<^verbatim>\<open>RenderUpToNow\<close> at time 1/2 (the quantum of the instance is
  1 ms): each chip has rendered one sample, the resamplers hold it back.
\<close>

definition caught_up_device :: "(toy_chip, toy_resampler, toy_channel) GameBlaster" where
  "caught_up_device =
     awake_device\<lparr>devices_0 := Some \<lparr>tc_level = 0, tc_control = 0, tc_rendered = 1\<rparr>,
                  devices_1 := Some \<lparr>tc_level = 0, tc_control = 0, tc_rendered = 1\<rparr>,
                  resamplers_0 := Some \<lparr>tr_phase = 1, tr_held = 0\<rparr>,
                  resamplers_1 := Some \<lparr>tr_phase = 1, tr_held = 0\<rparr>,
                  last_rendered_ms := 2\<rparr>"

text \<open>The sounding device with two frames in the queue.\<close>

definition queued_device :: "(toy_chip, toy_resampler, toy_channel) GameBlaster" where
  "queued_device =
     sounding_device\<lparr>fifo := [\<lparr>left = 1, right = 1\<rparr>, \<lparr>left = 2, right = 2\<rparr>]\<rparr>"

section \<open>What a run keeps\<close>

lemma quantum_ms_pos: "0 < quantum_ms q"
  by transfer simp

lemma MaybeRenderFrame_clock:
  "MaybeRenderFrame env frame s = Inr (ready, frame', s') \<Longrightarrow>
     last_rendered_ms s' = last_rendered_ms s + quantum_ms (ms_per_render env)"
  by (auto simp: MaybeRenderFrame_def Let_def split: option.splits prod.splits if_splits)

lemma MaybeRenderFrame_changes:
  assumes "MaybeRenderFrame env frame s = Inr (ready, frame', s')"
  shows "\<exists>d0 d1 r0 r1.
           s' = s\<lparr>devices_0 := Some d0, devices_1 := Some d1,
                  resamplers_0 := Some r0, resamplers_1 := Some r1,
                  last_rendered_ms := last_rendered_ms s + quantum_ms (ms_per_render env)\<rparr>"
  using assms
  by (auto simp: MaybeRenderFrame_def Let_def split_beta split: option.splits if_splits)

lemma MaybeRenderFrame_installed:
  assumes "MaybeRenderFrame env frame s = Inr (ready, frame', s')" and "installed_at b sa s"
  shows "installed_at b sa s' \<and> cms_detect_register s' = cms_detect_register s"
  using MaybeRenderFrame_changes [OF assms(1)] assms(2)
  by (auto simp: installed_at_def)

lemma RenderUpToNow_loop_installed:
  "RenderUpToNow_loop env now s = Inr s' \<Longrightarrow> installed_at b sa s \<Longrightarrow>
     installed_at b sa s' \<and> cms_detect_register s' = cms_detect_register s"
proof (induction env now s rule: RenderUpToNow_loop.induct)
  case (1 env now s)
  show ?case
  proof (cases "last_rendered_ms s < now")
    case False
    with "1.prems" show ?thesis by (simp add: RenderUpToNow_loop.simps)
  next
    case True
    let ?s0 = "s\<lparr>last_rendered_ms := last_rendered_ms s + quantum_ms (ms_per_render env)\<rparr>"
    from True "1.prems"(1) obtain ready f s1 where
      m: "MaybeRenderFrame env zero_frame ?s0 = Inr (ready, f, s1)"
      and r: "RenderUpToNow_loop env now (if ready then s1\<lparr>fifo := fifo s1 @ [f]\<rparr> else s1) = Inr s'"
      by (subst (asm) RenderUpToNow_loop.simps) (auto split: sum.splits)
    have "installed_at b sa ?s0" using "1.prems"(2) by (simp add: installed_at_def)
    from MaybeRenderFrame_installed [OF m this]
    have i1: "installed_at b sa (if ready then s1\<lparr>fifo := fifo s1 @ [f]\<rparr> else s1)"
      and c1: "cms_detect_register (if ready then s1\<lparr>fifo := fifo s1 @ [f]\<rparr> else s1) = cms_detect_register s"
      by (auto simp: installed_at_def)
    from "1.IH" [OF True m refl refl r i1] c1
    show ?thesis by simp
  qed
qed

lemma RenderUpToNow_installed:
  assumes "RenderUpToNow env now s = Inr s'" and "installed_at b sa s"
  shows "installed_at b sa s'"
proof -
  from assms(1) obtain c where c: "channel s = Some c"
    by (auto simp: RenderUpToNow_def split: option.splits)
  let ?s1 = "s\<lparr>channel := Some (snd (WakeUp env c))\<rparr>"
  have i1: "installed_at b sa ?s1" using assms(2) by (simp add: installed_at_def)
  show ?thesis
  proof (cases "fst (WakeUp env c)")
    case True
    with assms(1) c have "s' = ?s1\<lparr>last_rendered_ms := now\<rparr>"
      by (auto simp: RenderUpToNow_def Let_def split_beta)
    with i1 show ?thesis by (simp add: installed_at_def)
  next
    case False
    with assms(1) c have "RenderUpToNow_loop env now ?s1 = Inr s'"
      by (auto simp: RenderUpToNow_def Let_def split_beta)
    from RenderUpToNow_loop_installed [OF this i1] show ?thesis by simp
  qed
qed

lemma chip_write_installed:
  assumes "installed_at b sa s"
  shows "WriteDataToLeftDevice env now val s = Inr s' \<Longrightarrow> installed_at b sa s'"
    and "WriteControlToLeftDevice env now val s = Inr s' \<Longrightarrow> installed_at b sa s'"
    and "WriteDataToRightDevice env now val s = Inr s' \<Longrightarrow> installed_at b sa s'"
    and "WriteControlToRightDevice env now val s = Inr s' \<Longrightarrow> installed_at b sa s'"
  using RenderUpToNow_installed [OF _ assms, of env now]
  by (auto simp: WriteDataToLeftDevice_def WriteControlToLeftDevice_def
        WriteDataToRightDevice_def WriteControlToRightDevice_def installed_at_def
      split: sum.splits option.splits)

lemma WriteToDetectionPort_installed:
  "WriteToDetectionPort port val s = Inr s' \<Longrightarrow> installed_at b sa s \<Longrightarrow> installed_at b sa s'"
  by (auto simp: WriteToDetectionPort_def Let_def installed_at_def split: if_splits sum.splits)

lemma IO_WriteB_installed:
  "IO_WriteB env now port val s = Inr s' \<Longrightarrow> installed_at b sa s \<Longrightarrow> installed_at b sa s'"
  by (auto simp: IO_WriteB_def split: if_splits
      dest: chip_write_installed WriteToDetectionPort_installed)

lemma AudioCallback_queued_installed:
  "AudioCallback_queued env n s = Inr (k, s') \<Longrightarrow> installed_at b sa s \<Longrightarrow> installed_at b sa s'"
proof (induction n arbitrary: s)
  case 0
  then show ?case by simp
next
  case (Suc n)
  show ?case
  proof (cases "fifo s")
    case Nil
    with Suc.prems show ?thesis by simp
  next
    case (Cons f rest)
    with Suc.prems obtain c where c: "channel s = Some c"
      and r: "AudioCallback_queued env n
                (s\<lparr>channel := Some (AddSamples_sfloat env f c), fifo := rest\<rparr>) = Inr (k, s')"
      by (auto split: option.splits)
    have "installed_at b sa (s\<lparr>channel := Some (AddSamples_sfloat env f c), fifo := rest\<rparr>)"
      using Suc.prems(2) by (simp add: installed_at_def)
    from Suc.IH [OF r this] show ?thesis .
  qed
qed

lemma AudioCallback_render_installed:
  "AudioCallback_render env n s = Inr s' \<Longrightarrow> installed_at b sa s \<Longrightarrow> installed_at b sa s'"
proof (induction n arbitrary: s)
  case 0
  then show ?case by simp
next
  case (Suc n)
  from Suc.prems(1) obtain ready f s1 where
    m: "MaybeRenderFrame env zero_frame s = Inr (ready, f, s1)"
    by (auto split: sum.splits)
  from MaybeRenderFrame_installed [OF m Suc.prems(2)] have i1: "installed_at b sa s1" by simp
  show ?case
  proof (cases ready)
    case False
    with Suc.prems(1) m have "AudioCallback_render env n s1 = Inr s'" by simp
    from Suc.IH [OF this i1] show ?thesis .
  next
    case True
    with Suc.prems(1) m obtain c where c: "channel s1 = Some c"
      and r: "AudioCallback_render env n (s1\<lparr>channel := Some (AddSamples_sfloat env f c)\<rparr>) = Inr s'"
      by (auto split: option.splits)
    have "installed_at b sa (s1\<lparr>channel := Some (AddSamples_sfloat env f c)\<rparr>)"
      using i1 by (simp add: installed_at_def)
    from Suc.IH [OF r this] show ?thesis .
  qed
qed

lemma AudioCallback_installed:
  assumes "AudioCallback env now n s = Inr s'" and "installed_at b sa s"
  shows "installed_at b sa s'"
proof -
  from assms(1) obtain k s1 s2 where
    q: "AudioCallback_queued env (unat n) s = Inr (k, s1)"
    and r: "AudioCallback_render env k s1 = Inr s2"
    and s': "s' = s2\<lparr>last_rendered_ms := now\<rparr>"
    by (auto simp: AudioCallback_def split: option.splits sum.splits)
  from AudioCallback_render_installed [OF r AudioCallback_queued_installed [OF q assms(2)]]
  show ?thesis by (simp add: s' installed_at_def)
qed

lemma run_installed:
  "run env evs s = Inr s' \<Longrightarrow> installed_at b sa s \<Longrightarrow> installed_at b sa s'"
proof (induction evs arbitrary: s)
  case Nil
  then show ?case by simp
next
  case (Cons ev evs)
  from Cons.prems(1) obtain s1 where st: "step env ev s = Inr s1" and r: "run env evs s1 = Inr s'"
    by (auto split: sum.splits)
  have "installed_at b sa s1"
    using st Cons.prems(2)
    by (cases ev) (auto dest: IO_WriteB_installed AudioCallback_installed)
  from Cons.IH [OF r this] show ?case .
qed

lemma Close_closed:
  assumes "consistent s0"
  shows "\<exists>s1. Close env s0 = Inr s1 \<and> \<not> is_open s1
            \<and> read_handler_for_detection s1 = None \<and> write_handler_for_detection s1 = None"
  using assms
  by (auto simp: Close_def consistent_def Let_def Uninstall_def split: option.splits if_splits)

lemma Open_filter_keeps:
  "base_port (Open_filter env fc c s) = base_port s"
  "is_open (Open_filter env fc c s) = is_open s"
  "is_standalone_gameblaster (Open_filter env fc c s) = is_standalone_gameblaster s"
  "devices_0 (Open_filter env fc c s) = devices_0 s"
  "devices_1 (Open_filter env fc c s) = devices_1 s"
  "write_handlers_0 (Open_filter env fc c s) = write_handlers_0 s"
  "write_handlers_1 (Open_filter env fc c s) = write_handlers_1 s"
  "write_handlers_2 (Open_filter env fc c s) = write_handlers_2 s"
  "write_handlers_3 (Open_filter env fc c s) = write_handlers_3 s"
  "read_handler_for_detection (Open_filter env fc c s) = read_handler_for_detection s"
  "write_handler_for_detection (Open_filter env fc c s) = write_handler_for_detection s"
  "channel (Open_filter env fc c s) \<noteq> None"
  by (simp_all add: Open_filter_def Let_def split_beta split: option.splits)

lemma Open_handlers_sets:
  "base_port (Open_handlers s) = base_port s"
  "devices_0 (Open_handlers s) = devices_0 s"
  "devices_1 (Open_handlers s) = devices_1 s"
  "write_handlers_0 (Open_handlers s) = Install (base_port s) 1"
  "write_handlers_1 (Open_handlers s) = Install (base_port s + 1) 1"
  "write_handlers_2 (Open_handlers s) = Install (base_port s + 2) 1"
  "write_handlers_3 (Open_handlers s) = Install (base_port s + 3) 1"
  "read_handler_for_detection (Open_handlers s) =
     (if is_standalone_gameblaster s then Install (base_port s) 16
      else read_handler_for_detection s)"
  "write_handler_for_detection (Open_handlers s) =
     (if is_standalone_gameblaster s then Install (base_port s + 4) 12
      else write_handler_for_detection s)"
  by (simp_all add: Open_handlers_def Let_def)

lemma Open_resamplers_changes:
  assumes "Open_resamplers env s = Inr s'"
  shows "\<exists>r. s' = s\<lparr>resamplers_0 := Some r, resamplers_1 := Some r\<rparr>"
proof -
  from assms obtain c where c: "channel s = Some c"
    by (cases "channel s") (simp_all add: Open_resamplers_def)
  define r where "r = resampler_create env (GetSampleRate env c) (max_freq (GetSampleRate env c))"
  have "Open_resamplers env s = Inr (s\<lparr>resamplers_0 := Some r, resamplers_1 := Some r\<rparr>)"
    by (simp add: Open_resamplers_def Let_def r_def c)
  with assms have "s' = s\<lparr>resamplers_0 := Some r, resamplers_1 := Some r\<rparr>"
    by (metis sum.inject(2))
  then show ?thesis ..
qed

lemma check_cast_io_port_uint:
  assumes "check_cast_io_port p = Inr port"
  shows "uint port = p"
proof -
  from assms have r: "0 \<le> p" "p \<le> 65535" and e: "port = word_of_int p"
    by (simp_all add: check_cast_io_port_def split: if_splits)
  have "uint (word_of_int p :: 16 word) = take_bit 16 p"
    by (simp add: uint_word_of_int_eq)
  also have "\<dots> = p"
    using r by (simp add: take_bit_int_eq_self)
  finally show ?thesis by (simp add: e)
qed

lemma Open_succeeds:
  assumes "consistent s0" and "Open env port_choice card_choice filter_choice s0 = Inr s"
  shows "\<exists>s1 port r.
           Close env s0 = Inr s1 \<and> \<not> is_open s1
           \<and> read_handler_for_detection s1 = None \<and> write_handler_for_detection s1 = None
           \<and> check_cast_io_port port_choice = Inr port
           \<and> port \<in> set (if card_choice = ''gb'' then valid_gb_ports else valid_cms_ports)
           \<and> s = (Open_filter env filter_choice (MIXER_AddChannel env)
                    (Open_handlers (Open_devices env
                       (s1\<lparr>is_standalone_gameblaster := (card_choice = ''gb''),
                           base_port := port\<rparr>))))
                 \<lparr>resamplers_0 := Some r, resamplers_1 := Some r,
                  log_lines := log_lines
                     (Open_filter env filter_choice (MIXER_AddChannel env)
                       (Open_handlers (Open_devices env
                         (s1\<lparr>is_standalone_gameblaster := (card_choice = ''gb''),
                             base_port := port\<rparr>)))) @ [Msg_running_on_port port],
                  is_open := True\<rparr>"
proof -
  from Close_closed [OF assms(1), of env] obtain s1 where
    c: "Close env s0 = Inr s1" "\<not> is_open s1"
       "read_handler_for_detection s1 = None" "write_handler_for_detection s1 = None"
    by blast
  from assms(2) c(1,2) obtain port where p: "check_cast_io_port port_choice = Inr port"
    by (cases "check_cast_io_port port_choice") (simp_all add: Open_def Let_def)
  define s3 where "s3 = s1\<lparr>is_standalone_gameblaster := (card_choice = ''gb''), base_port := port\<rparr>"
  define s7 where "s7 = Open_filter env filter_choice (MIXER_AddChannel env)
                    (Open_handlers (Open_devices env s3))"
  have o: "Open env port_choice card_choice filter_choice s0 =
            (if port \<notin> set (if card_choice = ''gb'' then valid_gb_ports else valid_cms_ports)
             then Inl Assert_valid_port
             else (case Open_resamplers env s7 of Inl e \<Rightarrow> Inl e
                   | Inr s4 \<Rightarrow>
                       Inr (s4\<lparr>log_lines := log_lines s4 @ [Msg_running_on_port (base_port s4)],
                               is_open := True\<rparr>)))"
    by (simp add: Open_def Let_def c p s7_def s3_def)
  from assms(2) have v: "port \<in> set (if card_choice = ''gb'' then valid_gb_ports else valid_cms_ports)"
    unfolding o by (simp split: if_splits)
  from assms(2) v obtain s4 where r: "Open_resamplers env s7 = Inr s4"
      and s: "s = s4\<lparr>log_lines := log_lines s4 @ [Msg_running_on_port (base_port s4)],
                      is_open := True\<rparr>"
    unfolding o by (cases "Open_resamplers env s7") simp_all
  from Open_resamplers_changes [OF r] obtain rs where
    s4: "s4 = s7\<lparr>resamplers_0 := Some rs, resamplers_1 := Some rs\<rparr>" by blast
  have b: "base_port s7 = port"
    by (simp add: s7_def Open_filter_keeps Open_handlers_sets Open_devices_def s3_def)
  have "s = s7\<lparr>resamplers_0 := Some rs, resamplers_1 := Some rs,
                    log_lines := log_lines s7 @ [Msg_running_on_port port], is_open := True\<rparr>"
    unfolding s s4 by (simp add: b)
  with c p v show ?thesis unfolding s7_def s3_def by blast
qed

lemma Open_installed:
  assumes "consistent s0" and "Open env port_choice card_choice filter_choice s0 = Inr s"
  shows "installed_at (base_port s) (card_choice = ''gb'') s
         \<and> base_port s \<in> set (if card_choice = ''gb'' then valid_gb_ports else valid_cms_ports)
         \<and> uint (base_port s) = port_choice"
proof -
  from Open_succeeds [OF assms] obtain s1 port r where
    f: "read_handler_for_detection s1 = None" "write_handler_for_detection s1 = None"
       "check_cast_io_port port_choice = Inr port"
       "port \<in> set (if card_choice = ''gb'' then valid_gb_ports else valid_cms_ports)"
    and s: "s = (Open_filter env filter_choice (MIXER_AddChannel env)
                    (Open_handlers (Open_devices env
                       (s1\<lparr>is_standalone_gameblaster := (card_choice = ''gb''),
                           base_port := port\<rparr>))))
                 \<lparr>resamplers_0 := Some r, resamplers_1 := Some r,
                  log_lines := log_lines
                     (Open_filter env filter_choice (MIXER_AddChannel env)
                       (Open_handlers (Open_devices env
                         (s1\<lparr>is_standalone_gameblaster := (card_choice = ''gb''),
                             base_port := port\<rparr>)))) @ [Msg_running_on_port port],
                  is_open := True\<rparr>"
    by blast
  have b: "base_port s = port"
    by (simp add: s Open_filter_keeps Open_handlers_sets Open_devices_def)
  have "installed_at port (card_choice = ''gb'') s"
    unfolding installed_at_def s
    by (simp add: Open_filter_keeps Open_handlers_sets Open_devices_def f)
  with b f(4) check_cast_io_port_uint [OF f(3)] show ?thesis by simp
qed

text \<open>
  The device is consistent through its life: before the first \<^verbatim>\<open>Open\<close>, after \<^verbatim>\<open>Open\<close>,
  after every run of an open device, and after \<^verbatim>\<open>Close\<close>.
\<close>

lemma closed_device_consistent: "consistent closed_device"
  by (simp add: consistent_def closed_device_def)

lemma installed_consistent: "installed_at b sa s \<Longrightarrow> consistent s"
  by (simp add: installed_at_def consistent_def)

lemma Open_consistent:
  assumes "consistent s0" and "Open env port_choice card_choice filter_choice s0 = Inr s"
  shows "consistent s"
  using Open_installed [OF assms] by (blast intro: installed_consistent)

lemma run_consistent:
  assumes "installed_at b sa s" and "run env evs s = Inr s'"
  shows "consistent s'"
  using run_installed [OF assms(2,1)] by (rule installed_consistent)

lemma Close_consistent:
  assumes "consistent s" and "Close env s = Inr s'"
  shows "consistent s'"
  using Close_closed [OF assms(1), of env] assms(2) by (auto simp: consistent_def)

lemma toy_quantum: "quantum_ms (ms_per_render toy_env) = 1"
  by (simp add: toy_env_def one_ms.rep_eq quantum_ms.rep_eq)

lemma Open_toy: "Open toy_env 0x220 ''gb'' ''on'' closed_device = Inr opened_device"
  by (simp add: Open_def Close_def closed_device_def check_cast_io_port_def valid_gb_ports_def
        Open_devices_def Open_handlers_def Open_filter_def Open_resamplers_def Let_def
        toy_env_def toy_parse_bool_def enable_filter_def toy_new_channel_def Install_def
        opened_device_def)

section \<open>Catching up\<close>

text \<open>
  C4. When the channel reports that it was asleep (\<^verbatim>\<open>WakeUp()\<close> returns true),
  \<^verbatim>\<open>RenderUpToNow\<close> returns the device with the render clock set to \<open>now\<close> and the channel
  as \<^verbatim>\<open>WakeUp\<close> left it: nothing else changes, so no chip was rendered and nothing was
  queued.
\<close>

theorem RenderUpToNow_wake_skips_rendering:
  assumes "channel s = Some c" and "fst (WakeUp env c)"
  shows "RenderUpToNow env now s =
           Inr (s\<lparr>channel := Some (snd (WakeUp env c)), last_rendered_ms := now\<rparr>)"
  using assms by (simp add: RenderUpToNow_def split_beta Let_def)

theorem RenderUpToNow_wake_skips_rendering_witness:
  "channel opened_device =
     Some \<lparr>tm_asleep = True, tm_enabled = False, tm_received = [],
           tm_lowpass = Some (1, 6000), tm_lowpass_state = Some On, tm_custom_filter = None\<rparr>
   \<and> fst (WakeUp toy_env
            \<lparr>tm_asleep = True, tm_enabled = False, tm_received = [],
             tm_lowpass = Some (1, 6000), tm_lowpass_state = Some On, tm_custom_filter = None\<rparr>)
   \<and> RenderUpToNow toy_env 5 opened_device = Inr (awake_device\<lparr>last_rendered_ms := 5\<rparr>)"
  using RenderUpToNow_wake_skips_rendering
    [of opened_device
        "\<lparr>tm_asleep = True, tm_enabled = False, tm_received = [],
          tm_lowpass = Some (1, 6000), tm_lowpass_state = Some On, tm_custom_filter = None\<rparr>"
        toy_env 5]
  by (simp add: opened_device_def toy_env_def awake_device_def awake_channel_def)

text \<open>
  C5. When the channel was not asleep and the render clock already equals \<open>now\<close>,
  \<^verbatim>\<open>RenderUpToNow\<close> returns the device as it was: the render clock, the queue, the chips
  and the resamplers are unchanged and no frame is produced. Only the channel has seen
  the call of \<^verbatim>\<open>WakeUp\<close>.
\<close>

theorem RenderUpToNow_current_changes_nothing:
  assumes "channel s = Some c" and "\<not> fst (WakeUp env c)" and "last_rendered_ms s = now"
  shows "RenderUpToNow env now s = Inr (s\<lparr>channel := Some (snd (WakeUp env c))\<rparr>)"
  using assms by (simp add: RenderUpToNow_def RenderUpToNow_loop.simps split_beta Let_def)

theorem RenderUpToNow_current_changes_nothing_witness:
  "channel awake_device = Some awake_channel
   \<and> \<not> fst (WakeUp toy_env awake_channel)
   \<and> last_rendered_ms awake_device = 0
   \<and> RenderUpToNow toy_env 0 awake_device = Inr awake_device"
  using RenderUpToNow_current_changes_nothing [of awake_device awake_channel toy_env 0]
  by (simp add: opened_device_def toy_env_def awake_device_def awake_channel_def)

section \<open>The one-frame render\<close>

lemma sint16_sum_bounds:
  "- 2147483648 \<le> sint (a :: int16_t) + sint (b :: int16_t)
   \<and> sint a + sint b \<le> 2147483647"
  using sint_range_size [of a] sint_range_size [of b] by (simp add: word_size)

text \<open>
  C7. \<^verbatim>\<open>MaybeRenderFrame\<close> takes one sample from each chip, adds the two left samples and
  the two right samples as they are (in \<^verbatim>\<open>int\<close>, where the sum of two 16-bit samples
  cannot overflow), gives the left sum to resampler 0 and the right sum to resampler 1,
  fails the assertion when the two resamplers disagree on readiness, and otherwise
  returns true with the resamplers' outputs as the frame exactly when both are ready.
\<close>

theorem MaybeRenderFrame_sums_and_resamples:
  assumes "devices_0 s = Some d0" and "devices_1 s = Some d1"
    and "resamplers_0 s = Some rs0" and "resamplers_1 s = Some rs1"
    and "sound_stream_update env d0 = ((l0, r0), d0')"
    and "sound_stream_update env d1 = ((l1, r1), d1')"
    and "resampler_input env (sint l0 + sint l1) rs0 = (l_ready, rs0')"
    and "resampler_input env (sint r0 + sint r1) rs1 = (r_ready, rs1')"
  shows "MaybeRenderFrame env frame s =
     (if l_ready \<noteq> r_ready then Inl Assert_ready_agree
      else Inr (l_ready \<and> r_ready,
                if l_ready \<and> r_ready
                then \<lparr>left = resampler_output env rs0', right = resampler_output env rs1'\<rparr>
                else frame,
                s\<lparr>devices_0 := Some d0', devices_1 := Some d1',
                  resamplers_0 := Some rs0', resamplers_1 := Some rs1',
                  last_rendered_ms := last_rendered_ms s + quantum_ms (ms_per_render env)\<rparr>))
    \<and> - 2147483648 \<le> sint l0 + sint l1 \<and> sint l0 + sint l1 \<le> 2147483647
    \<and> - 2147483648 \<le> sint r0 + sint r1 \<and> sint r0 + sint r1 \<le> 2147483647"
  using assms sint16_sum_bounds [of l0 l1] sint16_sum_bounds [of r0 r1]
  by (simp add: MaybeRenderFrame_def)

theorem MaybeRenderFrame_sums_and_resamples_witness:
  "MaybeRenderFrame toy_env zero_frame sounding_device =
     Inr (True, \<lparr>left = 97, right = 97\<rparr>,
          sounding_device
            \<lparr>devices_0 := Some \<lparr>tc_level = 100, tc_control = 0, tc_rendered = 1\<rparr>,
             devices_1 := Some \<lparr>tc_level = - 3, tc_control = 0, tc_rendered = 1\<rparr>,
             resamplers_0 := Some \<lparr>tr_phase = 0, tr_held = 97\<rparr>,
             resamplers_1 := Some \<lparr>tr_phase = 0, tr_held = 97\<rparr>,
             last_rendered_ms := 1\<rparr>)"
  using MaybeRenderFrame_sums_and_resamples [where s = sounding_device and env = toy_env and frame = zero_frame
        and ?d0.0 = "\<lparr>tc_level = 100, tc_control = 0, tc_rendered = 0\<rparr>"
        and ?d1.0 = "\<lparr>tc_level = - 3, tc_control = 0, tc_rendered = 0\<rparr>"
        and ?rs0.0 = "\<lparr>tr_phase = 1, tr_held = 0\<rparr>"
        and ?rs1.0 = "\<lparr>tr_phase = 1, tr_held = 0\<rparr>"
        and ?l0.0 = 100 and ?r0.0 = 100 and ?l1.0 = "- 3" and ?r1.0 = "- 3"
        and d0' = "\<lparr>tc_level = 100, tc_control = 0, tc_rendered = 1\<rparr>"
        and d1' = "\<lparr>tc_level = - 3, tc_control = 0, tc_rendered = 1\<rparr>"
        and l_ready = True and r_ready = True
        and rs0' = "\<lparr>tr_phase = 0, tr_held = 97\<rparr>"
        and rs1' = "\<lparr>tr_phase = 0, tr_held = 97\<rparr>"]
  by (simp add: sounding_device_def awake_device_def opened_device_def toy_env_def toy_input_def
        quantum_ms.rep_eq one_ms.rep_eq)

section \<open>Opening the device\<close>

lemma valid_port_ints:
  assumes "check_cast_io_port p = Inr port"
  shows "port \<in> set valid_gb_ports \<longleftrightarrow> p \<in> {0x210, 0x220, 0x230, 0x240, 0x250, 0x260}"
    and "port \<in> set valid_cms_ports
           \<longleftrightarrow> p \<in> {0x220, 0x240, 0x260, 0x280, 0x2a0, 0x2c0, 0x2e0, 0x300}"
proof -
  from check_cast_io_port_uint [OF assms] have u: "uint port = p" .
  have w: "port = word_of_int p" using u by (metis word_of_int_uint)
  show "port \<in> set valid_gb_ports \<longleftrightarrow> p \<in> {0x210, 0x220, 0x230, 0x240, 0x250, 0x260}"
  proof
    assume "port \<in> set valid_gb_ports"
    then have "uint port \<in> {0x210, 0x220, 0x230, 0x240, 0x250, 0x260}"
      by (auto simp: valid_gb_ports_def)
    then show "p \<in> {0x210, 0x220, 0x230, 0x240, 0x250, 0x260}" by (simp add: u)
  next
    assume "p \<in> {0x210, 0x220, 0x230, 0x240, 0x250, 0x260}"
    then show "port \<in> set valid_gb_ports"
      unfolding w by (auto simp: valid_gb_ports_def)
  qed
  show "port \<in> set valid_cms_ports
           \<longleftrightarrow> p \<in> {0x220, 0x240, 0x260, 0x280, 0x2a0, 0x2c0, 0x2e0, 0x300}"
  proof
    assume "port \<in> set valid_cms_ports"
    then have "uint port \<in> {0x220, 0x240, 0x260, 0x280, 0x2a0, 0x2c0, 0x2e0, 0x300}"
      by (auto simp: valid_cms_ports_def)
    then show "p \<in> {0x220, 0x240, 0x260, 0x280, 0x2a0, 0x2c0, 0x2e0, 0x300}" by (simp add: u)
  next
    assume "p \<in> {0x220, 0x240, 0x260, 0x280, 0x2a0, 0x2c0, 0x2e0, 0x300}"
    then show "port \<in> set valid_cms_ports"
      unfolding w by (auto simp: valid_cms_ports_def)
  qed
qed

text \<open>
  C9. Called on a consistent device with a base port outside the set allowed for the card
  (210h to 260h in steps of 10h for the standalone Game Blaster, 220h to 300h in steps of
  20h otherwise), \<^verbatim>\<open>Open\<close> fails an assertion: the port assertion when the port is a
  16-bit value, the assertion of \<^verbatim>\<open>check_cast\<close> when it is not. Port 210h with a card
  other than the Game Blaster is such a case.
\<close>

theorem Open_asserts_valid_port:
  assumes "consistent s"
    and "port_choice \<notin> (if card_choice = ''gb''
                          then {0x210, 0x220, 0x230, 0x240, 0x250, 0x260}
                          else {0x220, 0x240, 0x260, 0x280, 0x2a0, 0x2c0, 0x2e0, 0x300})"
  shows "Open env port_choice card_choice filter_choice s =
           Inl (if 0 \<le> port_choice \<and> port_choice \<le> 65535 then Assert_valid_port
                else Assert_check_cast)"
proof -
  from Close_closed [OF assms(1), of env] obtain s1 where
    c: "Close env s = Inr s1" "\<not> is_open s1" by blast
  show ?thesis
  proof (cases "check_cast_io_port port_choice")
    case (Inl e)
    then have "\<not> (0 \<le> port_choice \<and> port_choice \<le> 65535)" and "e = Assert_check_cast"
      by (auto simp: check_cast_io_port_def split: if_splits)
    with Inl c show ?thesis by (simp add: Open_def Let_def)
  next
    case (Inr port)
    then have r: "0 \<le> port_choice \<and> port_choice \<le> 65535"
      by (auto simp: check_cast_io_port_def split: if_splits)
    from assms(2) valid_port_ints [OF Inr]
    have "port \<notin> set (if card_choice = ''gb'' then valid_gb_ports else valid_cms_ports)"
      by (simp split: if_splits)
    with Inr c r show ?thesis by (simp add: Open_def Let_def)
  qed
qed

theorem Open_asserts_valid_port_witness:
  "consistent closed_device
   \<and> (0x210 :: int) \<notin> (if ''sb16'' = ''gb''
                          then {0x210, 0x220, 0x230, 0x240, 0x250, 0x260}
                          else {0x220, 0x240, 0x260, 0x280, 0x2a0, 0x2c0, 0x2e0, 0x300})
   \<and> Open toy_env 0x210 ''sb16'' ''on'' closed_device = Inl Assert_valid_port"
  using Open_asserts_valid_port [where s = closed_device and port_choice = "0x210" and card_choice = "''sb16''"
        and env = toy_env and filter_choice = "''on''"]
  by (simp add: consistent_def closed_device_def)

lemma Open_on_valid_port:
  assumes "consistent s0"
    and "port_choice \<in> (if card_choice = ''gb''
                          then {0x210, 0x220, 0x230, 0x240, 0x250, 0x260}
                          else {0x220, 0x240, 0x260, 0x280, 0x2a0, 0x2c0, 0x2e0, 0x300})"
  shows "\<exists>s1. Close env s0 = Inr s1 \<and>
           Open env port_choice card_choice filter_choice s0 =
             (case Open_resamplers env
                     (Open_filter env filter_choice (MIXER_AddChannel env)
                        (Open_handlers (Open_devices env
                           (s1\<lparr>is_standalone_gameblaster := (card_choice = ''gb''),
                               base_port := word_of_int port_choice\<rparr>)))) of
                Inl e \<Rightarrow> Inl e
              | Inr s4 \<Rightarrow>
                  Inr (s4\<lparr>log_lines := log_lines s4 @ [Msg_running_on_port (base_port s4)],
                          is_open := True\<rparr>))"
proof -
  from Close_closed [OF assms(1), of env] obtain s1 where
    c: "Close env s0 = Inr s1" "\<not> is_open s1" by blast
  from assms(2) have "0 \<le> port_choice \<and> port_choice \<le> 65535"
    by (auto split: if_splits)
  then have cc: "check_cast_io_port port_choice = Inr (word_of_int port_choice)"
    by (simp add: check_cast_io_port_def)
  from assms(2) valid_port_ints [OF cc]
  have v: "word_of_int port_choice
             \<in> set (if card_choice = ''gb'' then valid_gb_ports else valid_cms_ports)"
    by (simp split: if_splits)
  have "Open env port_choice card_choice filter_choice s0 =
             (case Open_resamplers env
                     (Open_filter env filter_choice (MIXER_AddChannel env)
                        (Open_handlers (Open_devices env
                           (s1\<lparr>is_standalone_gameblaster := (card_choice = ''gb''),
                               base_port := word_of_int port_choice\<rparr>)))) of
                Inl e \<Rightarrow> Inl e
              | Inr s4 \<Rightarrow>
                  Inr (s4\<lparr>log_lines := log_lines s4 @ [Msg_running_on_port (base_port s4)],
                          is_open := True\<rparr>))"
    using v by (simp add: Open_def Let_def c cc)
  with c(1) show ?thesis by blast
qed

lemma Open_filter_invalid:
  assumes "parse_bool_setting env filter_choice = None"
    and "\<not> fst (TryParseAndSetCustomFilter env filter_choice c)"
  shows "Open_filter env filter_choice c s =
           s\<lparr>log_lines := log_lines s @ [Warning_invalid_cms_filter filter_choice],
             section_property :=
               (section_property s)((''sblaster'', ''cms_filter'') := Some ''on''),
             channel := Some (enable_filter env
                               (snd (TryParseAndSetCustomFilter env filter_choice c)))\<rparr>"
  using assms by (simp add: Open_filter_def Let_def split_beta)

lemma Open_resamplers_keeps:
  assumes "channel s = Some c"
  shows "\<exists>s'. Open_resamplers env s = Inr s' \<and> channel s' = Some c
           \<and> log_lines s' = log_lines s \<and> section_property s' = section_property s
           \<and> base_port s' = base_port s"
  using assms by (simp add: Open_resamplers_def Let_def)

text \<open>
  C8. Called on a consistent device with a valid port and a filter setting that
  \<^verbatim>\<open>parse_bool_setting\<close> does not read as a boolean and the channel does not accept as a
  custom filter, \<^verbatim>\<open>Open\<close> succeeds; the channel has the first-order 6000 Hz low-pass
  filter configured and switched on (on top of what the failed parse left), the warning
  about the setting is logged, and the setting \<open>cms_filter\<close> of section \<open>sblaster\<close> is
  rewritten to \<open>on\<close>.
\<close>

theorem Open_invalid_filter_falls_back:
  assumes "consistent s0"
    and "port_choice \<in> (if card_choice = ''gb''
                          then {0x210, 0x220, 0x230, 0x240, 0x250, 0x260}
                          else {0x220, 0x240, 0x260, 0x280, 0x2a0, 0x2c0, 0x2e0, 0x300})"
    and "parse_bool_setting env filter_choice = None"
    and "\<not> fst (TryParseAndSetCustomFilter env filter_choice (MIXER_AddChannel env))"
  shows "\<exists>s. Open env port_choice card_choice filter_choice s0 = Inr s
           \<and> channel s =
               Some (SetLowPassFilter env On
                      (ConfigureLowPassFilter env 1 6000
                        (snd (TryParseAndSetCustomFilter env filter_choice
                               (MIXER_AddChannel env)))))
           \<and> Warning_invalid_cms_filter filter_choice \<in> set (log_lines s)
           \<and> section_property s (''sblaster'', ''cms_filter'') = Some ''on''"
proof -
  from Open_on_valid_port [OF assms(1,2), of env filter_choice] obtain s1 where
    o: "Open env port_choice card_choice filter_choice s0 =
             (case Open_resamplers env
                     (Open_filter env filter_choice (MIXER_AddChannel env)
                        (Open_handlers (Open_devices env
                           (s1\<lparr>is_standalone_gameblaster := (card_choice = ''gb''),
                               base_port := word_of_int port_choice\<rparr>)))) of
                Inl e \<Rightarrow> Inl e
              | Inr s4 \<Rightarrow>
                  Inr (s4\<lparr>log_lines := log_lines s4 @ [Msg_running_on_port (base_port s4)],
                          is_open := True\<rparr>))"
    by blast
  define s6 where "s6 = Open_handlers (Open_devices env
                           (s1\<lparr>is_standalone_gameblaster := (card_choice = ''gb''),
                               base_port := word_of_int port_choice\<rparr>))"
  define s7 where "s7 = Open_filter env filter_choice (MIXER_AddChannel env) s6"
  define c where "c = enable_filter env
                        (snd (TryParseAndSetCustomFilter env filter_choice (MIXER_AddChannel env)))"
  have s7: "channel s7 = Some c"
      "log_lines s7 = log_lines s6 @ [Warning_invalid_cms_filter filter_choice]"
      "section_property s7 (''sblaster'', ''cms_filter'') = Some ''on''"
    unfolding s7_def Open_filter_invalid [OF assms(3,4)] c_def by simp_all
  from Open_resamplers_keeps [OF s7(1), of env] obtain s4 where
    s4: "Open_resamplers env s7 = Inr s4" "channel s4 = Some c" "log_lines s4 = log_lines s7"
        "section_property s4 = section_property s7"
    by blast
  have "Open env port_choice card_choice filter_choice s0 =
          Inr (s4\<lparr>log_lines := log_lines s4 @ [Msg_running_on_port (base_port s4)],
                  is_open := True\<rparr>)"
    using s4(1) unfolding o s7_def s6_def by simp
  then show ?thesis
    using s4 s7 by (simp add: c_def enable_filter_def)
qed

theorem Open_invalid_filter_falls_back_witness:
  "consistent closed_device
   \<and> (0x220 :: int) \<in> (if ''gb'' = ''gb''
                          then {0x210, 0x220, 0x230, 0x240, 0x250, 0x260}
                          else {0x220, 0x240, 0x260, 0x280, 0x2a0, 0x2c0, 0x2e0, 0x300})
   \<and> parse_bool_setting toy_env ''banana'' = None
   \<and> \<not> fst (TryParseAndSetCustomFilter toy_env ''banana'' (MIXER_AddChannel toy_env))
   \<and> (\<exists>s. Open toy_env 0x220 ''gb'' ''banana'' closed_device = Inr s
           \<and> channel s = Some (toy_new_channel\<lparr>tm_lowpass := Some (1, 6000),
                                                tm_lowpass_state := Some On\<rparr>)
           \<and> Warning_invalid_cms_filter ''banana'' \<in> set (log_lines s)
           \<and> section_property s (''sblaster'', ''cms_filter'') = Some ''on'')"
  using Open_invalid_filter_falls_back [where ?s0.0 = closed_device and port_choice = "0x220" and card_choice = "''gb''"
        and env = toy_env and filter_choice = "''banana''"]
  by (simp add: consistent_def closed_device_def toy_env_def toy_parse_bool_def
        toy_custom_filter_def)

section \<open>Concrete runs\<close>

lemma MaybeRenderFrame_toy:
  "MaybeRenderFrame toy_env zero_frame (awake_device\<lparr>last_rendered_ms := 1\<rparr>)
     = Inr (False, zero_frame, caught_up_device)"
  by (simp add: MaybeRenderFrame_def awake_device_def opened_device_def caught_up_device_def
        toy_env_def toy_input_def quantum_ms.rep_eq one_ms.rep_eq)

lemma RenderUpToNow_loop_toy:
  "RenderUpToNow_loop toy_env (1 / 2) awake_device = Inr caught_up_device"
proof -
  have l: "last_rendered_ms awake_device = 0" "last_rendered_ms caught_up_device = 2"
    by (simp_all add: awake_device_def opened_device_def caught_up_device_def)
  have "RenderUpToNow_loop toy_env (1 / 2) awake_device
          = RenderUpToNow_loop toy_env (1 / 2) caught_up_device"
    by (subst RenderUpToNow_loop.simps) (simp add: l toy_quantum MaybeRenderFrame_toy)
  also have "\<dots> = Inr caught_up_device"
    by (subst RenderUpToNow_loop.simps) (simp add: l)
  finally show ?thesis .
qed

lemma RenderUpToNow_toy:
  "RenderUpToNow toy_env (1 / 2) awake_device = Inr caught_up_device"
proof -
  have c: "channel awake_device = Some awake_channel"
    by (simp add: awake_device_def)
  have w: "WakeUp toy_env awake_channel = (False, awake_channel)"
    by (simp add: toy_env_def awake_channel_def)
  have a: "awake_device\<lparr>channel := Some awake_channel\<rparr> = awake_device"
    by (simp add: awake_device_def)
  have "RenderUpToNow toy_env (1 / 2) awake_device
          = RenderUpToNow_loop toy_env (1 / 2) (awake_device\<lparr>channel := Some awake_channel\<rparr>)"
    unfolding RenderUpToNow_def c by (simp add: w)
  then show ?thesis by (simp only: a RenderUpToNow_loop_toy)
qed

lemma toy_writes:
  "data_w toy_env v d = d\<lparr>tc_level := ucast v\<rparr>"
  "control_w toy_env v d = d\<lparr>tc_control := v\<rparr>"
  by (simp_all add: toy_env_def)

lemma run_toy_wake: "run toy_env [Port_write 0 0x221 0] opened_device = Inr awake_device"
  by (simp add: IO_WriteB_def handles_def WriteControlToLeftDevice_def RenderUpToNow_def
        check_cast_uint8_def opened_device_def awake_device_def awake_channel_def toy_env_def)

section \<open>The ports of an open device\<close>

lemma valid_port_bound:
  assumes "b \<in> set (if sa then valid_gb_ports else valid_cms_ports)"
  shows "unat b \<le> 0x300"
  using assms by (auto simp: valid_gb_ports_def valid_cms_ports_def split: if_splits)

lemma port_offset:
  fixes b k :: io_port_t
  assumes "unat b \<le> 0x300" and "unat k \<le> 15"
  shows "unat (b + k) = unat b + unat k" and "uint (b + k) - uint b = uint k"
proof -
  have "unat b + unat k < 2 ^ LENGTH(16)" using assms by simp
  then show u: "unat (b + k) = unat b + unat k" by (rule unat_add_lem [THEN iffD1])
  have "uint (b + k) = int (unat (b + k))" by (rule uint_nat)
  also have "\<dots> = int (unat b) + int (unat k)" by (simp only: u of_nat_add)
  also have "\<dots> = uint b + uint k" by (simp only: uint_nat)
  finally show "uint (b + k) - uint b = uint k" by simp
qed

lemma detection_read_at:
  fixes k :: io_port_t
  assumes "installed_at b True s" and "unat b \<le> 0x300" and "unat k \<le> 15"
  shows "IO_ReadB (b + k) s =
           Some (if uint k = 4 then 0x7f
                 else if uint k = 0xa \<or> uint k = 0xb then cms_detect_register s
                 else 0xff)"
proof -
  from assms(1) have h: "read_handler_for_detection s = Some (b, 16)" and bp: "base_port s = b"
    by (simp_all add: installed_at_def Install_def)
  have "handles (Some (b, 16)) (b + k)"
    using assms(3) by (simp add: handles_def port_offset(1) [OF assms(2,3)])
  then show ?thesis
    by (simp add: IO_ReadB_def h ReadFromDetectionPort_def bp port_offset(2) [OF assms(2,3)] Let_def)
qed

lemma check_cast_uint8_byte: "check_cast_uint8 (ucast (v :: uint8_t)) = Inr v"
proof -
  have up: "is_up (ucast :: 8 word \<Rightarrow> 32 word)" by (simp add: is_up)
  have "uint (ucast v :: 32 word) = uint v" by (rule uint_up_ucast [OF up])
  then have "unat (ucast v :: 32 word) = unat v" by (simp only: unat_eq_nat_uint)
  moreover have "unat v < 2 ^ 8" using unsigned_less [of v, where ?'a = nat] by simp
  moreover have "ucast (ucast v :: 32 word) = v" by (rule ucast_up_ucast_id [OF up])
  ultimately show ?thesis by (simp add: check_cast_uint8_def)
qed

lemma detection_write_at:
  fixes k :: io_port_t
  assumes "installed_at b True s" and "unat b \<le> 0x300" and "4 \<le> unat k" and "unat k \<le> 15"
  shows "IO_WriteB env now (b + k) val s =
           (if uint k = 6 \<or> uint k = 7
            then (case check_cast_uint8 val of Inl e \<Rightarrow> Inl e
                  | Inr v \<Rightarrow> Inr (s\<lparr>cms_detect_register := v\<rparr>))
            else Inr s)"
proof -
  from assms(1) have h: "write_handler_for_detection s = Some (b + 4, 12)"
    and bp: "base_port s = b"
    by (simp_all add: installed_at_def Install_def)
  have "unat (b + 4) = unat b + 4" using port_offset(1) [OF assms(2), of 4] by simp
  then have "handles (Some (b + 4, 12)) (b + k)"
    using assms(3,4) by (simp add: handles_def port_offset(1) [OF assms(2,4)])
  then show ?thesis
    by (simp add: IO_WriteB_def h WriteToDetectionPort_def bp port_offset(2) [OF assms(2,4)]
          Let_def)
qed

lemma chip_port_dispatch:
  assumes "installed_at b sa s" and "unat b \<le> 0x300"
  shows "IO_WriteB env now b val s = WriteDataToLeftDevice env now val s"
    and "IO_WriteB env now (b + 1) val s = WriteControlToLeftDevice env now val s"
    and "IO_WriteB env now (b + 2) val s = WriteDataToRightDevice env now val s"
    and "IO_WriteB env now (b + 3) val s = WriteControlToRightDevice env now val s"
proof -
  have o: "unat (b + 1) = unat b + 1" "unat (b + 2) = unat b + 2" "unat (b + 3) = unat b + 3"
      "unat (b + 4) = unat b + 4"
    using port_offset(1) [OF assms(2), of 1] port_offset(1) [OF assms(2), of 2]
      port_offset(1) [OF assms(2), of 3] port_offset(1) [OF assms(2), of 4]
    by simp_all
  from assms(1) have h: "write_handlers_0 s = Some (b, 1)" "write_handlers_1 s = Some (b + 1, 1)"
      "write_handlers_2 s = Some (b + 2, 1)" "write_handlers_3 s = Some (b + 3, 1)"
      "write_handler_for_detection s = (if sa then Some (b + 4, 12) else None)"
    by (simp_all add: installed_at_def Install_def)
  show "IO_WriteB env now b val s = WriteDataToLeftDevice env now val s"
    by (simp add: IO_WriteB_def h handles_def o)
  show "IO_WriteB env now (b + 1) val s = WriteControlToLeftDevice env now val s"
    by (simp add: IO_WriteB_def h handles_def o)
  show "IO_WriteB env now (b + 2) val s = WriteDataToRightDevice env now val s"
    by (simp add: IO_WriteB_def h handles_def o)
  show "IO_WriteB env now (b + 3) val s = WriteControlToRightDevice env now val s"
    by (simp add: IO_WriteB_def h handles_def o)
qed

text \<open>
  C3. On a device that was opened (any card, any valid port) and has seen any run of
  events, a byte written to one of the first four ports first goes through
  \<^verbatim>\<open>RenderUpToNow\<close>: if that fails, the write fails the same way; otherwise the byte is
  applied to the device that \<^verbatim>\<open>RenderUpToNow\<close> returned, as data to chip 0 at the base
  port, as control to chip 0 at base + 1, as data to chip 1 at base + 2 and as control
  to chip 1 at base + 3. This holds for every byte \<open>v\<close>.
\<close>

theorem chip_port_write_catches_up_first:
  fixes v :: uint8_t
  assumes "consistent s0"
    and "Open env port_choice card_choice filter_choice s0 = Inr s1"
    and "run env evs s1 = Inr s"
  shows "case RenderUpToNow env now s of
           Inl e \<Rightarrow>
             IO_WriteB env now (base_port s) (ucast v) s = Inl e
             \<and> IO_WriteB env now (base_port s + 1) (ucast v) s = Inl e
             \<and> IO_WriteB env now (base_port s + 2) (ucast v) s = Inl e
             \<and> IO_WriteB env now (base_port s + 3) (ucast v) s = Inl e
         | Inr s' \<Rightarrow>
             (\<exists>d0 d1. devices_0 s' = Some d0 \<and> devices_1 s' = Some d1
                \<and> IO_WriteB env now (base_port s) (ucast v) s
                    = Inr (s'\<lparr>devices_0 := Some (data_w env v d0)\<rparr>)
                \<and> IO_WriteB env now (base_port s + 1) (ucast v) s
                    = Inr (s'\<lparr>devices_0 := Some (control_w env v d0)\<rparr>)
                \<and> IO_WriteB env now (base_port s + 2) (ucast v) s
                    = Inr (s'\<lparr>devices_1 := Some (data_w env v d1)\<rparr>)
                \<and> IO_WriteB env now (base_port s + 3) (ucast v) s
                    = Inr (s'\<lparr>devices_1 := Some (control_w env v d1)\<rparr>))"
proof -
  from Open_installed [OF assms(1,2)]
  have i1: "installed_at (base_port s1) (card_choice = ''gb'') s1"
    and v: "base_port s1 \<in> set (if card_choice = ''gb'' then valid_gb_ports else valid_cms_ports)"
    by simp_all
  from run_installed [OF assms(3) i1]
  have i: "installed_at (base_port s1) (card_choice = ''gb'') s" .
  then have b: "base_port s = base_port s1" by (simp add: installed_at_def)
  from v have u: "unat (base_port s1) \<le> 0x300" by (rule valid_port_bound)
  note d = chip_port_dispatch [OF i u, of env now "ucast v", folded b]
  show ?thesis
  proof (cases "RenderUpToNow env now s")
    case (Inl e)
    then show ?thesis
      by (simp add: d WriteDataToLeftDevice_def WriteControlToLeftDevice_def
            WriteDataToRightDevice_def WriteControlToRightDevice_def)
  next
    case (Inr s')
    from RenderUpToNow_installed [OF Inr i] obtain d0 d1 where
      dv: "devices_0 s' = Some d0" "devices_1 s' = Some d1"
      by (auto simp: installed_at_def)
    with Inr show ?thesis
      by (simp add: d WriteDataToLeftDevice_def WriteControlToLeftDevice_def
            WriteDataToRightDevice_def WriteControlToRightDevice_def check_cast_uint8_byte)
  qed
qed

theorem chip_port_write_catches_up_first_witness:
  "consistent closed_device
   \<and> Open toy_env 0x220 ''gb'' ''on'' closed_device = Inr opened_device
   \<and> run toy_env [Port_write 0 0x221 0] opened_device = Inr awake_device
   \<and> RenderUpToNow toy_env (1 / 2) awake_device = Inr caught_up_device
   \<and> IO_WriteB toy_env (1 / 2) 0x220 0x64 awake_device
       = Inr (caught_up_device
                \<lparr>devices_0 := Some \<lparr>tc_level = 0x64, tc_control = 0, tc_rendered = 1\<rparr>\<rparr>)
   \<and> IO_WriteB toy_env (1 / 2) 0x223 0x64 awake_device
       = Inr (caught_up_device
                \<lparr>devices_1 := Some \<lparr>tc_level = 0, tc_control = 0x64, tc_rendered = 1\<rparr>\<rparr>)"
proof -
  have c: "consistent closed_device" by (simp add: consistent_def closed_device_def)
  have b: "base_port awake_device = 0x220" by (simp add: awake_device_def opened_device_def)
  have d: "devices_0 caught_up_device = Some \<lparr>tc_level = 0, tc_control = 0, tc_rendered = 1\<rparr>"
    "devices_1 caught_up_device = Some \<lparr>tc_level = 0, tc_control = 0, tc_rendered = 1\<rparr>"
    by (simp_all add: caught_up_device_def)
  from chip_port_write_catches_up_first
         [OF c Open_toy run_toy_wake, where now = "1 / 2" and v = "0x64"]
  have "IO_WriteB toy_env (1 / 2) 0x220 0x64 awake_device
       = Inr (caught_up_device
                \<lparr>devices_0 := Some \<lparr>tc_level = 0x64, tc_control = 0, tc_rendered = 1\<rparr>\<rparr>)"
    and "IO_WriteB toy_env (1 / 2) 0x223 0x64 awake_device
       = Inr (caught_up_device
                \<lparr>devices_1 := Some \<lparr>tc_level = 0, tc_control = 0x64, tc_rendered = 1\<rparr>\<rparr>)"
    by (simp_all add: RenderUpToNow_toy b d toy_writes)
  with c Open_toy run_toy_wake RenderUpToNow_toy show ?thesis by simp
qed

text \<open>
  C6. On a device opened as a standalone Game Blaster, after any run of events: a read
  of base + 4 returns 7Fh; a byte \<open>v\<close> written to base + 6 or base + 7 is stored in the
  detection register and a read of base + Ah or base + Bh then returns \<open>v\<close>; a read of
  base + 8 or base + 9 returns FFh; and a write to any other port of the detection range
  (base + 4, 5, 8 .. Fh) leaves the whole device, the detection register included, as it
  was.
\<close>

theorem detection_protocol:
  fixes v :: uint8_t
  assumes "consistent s0"
    and "Open env port_choice ''gb'' filter_choice s0 = Inr s1"
    and "run env evs s1 = Inr s"
  shows "IO_ReadB (base_port s + 4) s = Some 0x7f
         \<and> (\<forall>k \<in> {6, 7}. \<forall>j \<in> {0xa, 0xb}.
               IO_WriteB env now (base_port s + k) (ucast v) s
                 = Inr (s\<lparr>cms_detect_register := v\<rparr>)
               \<and> IO_ReadB (base_port s + j) (s\<lparr>cms_detect_register := v\<rparr>) = Some v)
         \<and> (\<forall>k \<in> {8, 9}. IO_ReadB (base_port s + k) s = Some 0xff)
         \<and> (\<forall>k \<in> {4, 5, 8, 9, 0xa, 0xb, 0xc, 0xd, 0xe, 0xf}.
               IO_WriteB env now (base_port s + k) val s = Inr s)"
proof -
  from Open_installed [OF assms(1,2)]
  have i1: "installed_at (base_port s1) True s1" and v: "base_port s1 \<in> set valid_gb_ports"
    by simp_all
  from run_installed [OF assms(3) i1] have i: "installed_at (base_port s1) True s" .
  then have b: "base_port s = base_port s1" by (simp add: installed_at_def)
  from v have u: "unat (base_port s1) \<le> 0x300"
    using valid_port_bound [of "base_port s1" True] by simp
  have i': "installed_at (base_port s1) True (s\<lparr>cms_detect_register := v\<rparr>)"
    using i by (simp add: installed_at_def)
  have r4: "IO_ReadB (base_port s1 + 4) s = Some 0x7f"
    using detection_read_at [OF i u, of 4] by simp
  have r89: "IO_ReadB (base_port s1 + k) s = Some 0xff" if "k \<in> {8, 9}" for k :: io_port_t
    using that detection_read_at [OF i u, of k] by auto
  have rab: "IO_ReadB (base_port s1 + j) (s\<lparr>cms_detect_register := v\<rparr>) = Some v"
    if "j \<in> {0xa, 0xb}" for j :: io_port_t
    using that detection_read_at [OF i' u, of j] by auto
  have w67: "IO_WriteB env now (base_port s1 + k) (ucast v) s = Inr (s\<lparr>cms_detect_register := v\<rparr>)"
    if "k \<in> {6, 7}" for k :: io_port_t
    using that detection_write_at [OF i u, of k env now "ucast v"]
    by (auto simp: check_cast_uint8_byte)
  have wo: "IO_WriteB env now (base_port s1 + k) val s = Inr s"
    if "k \<in> {4, 5, 8, 9, 0xa, 0xb, 0xc, 0xd, 0xe, 0xf}" for k :: io_port_t
    using that detection_write_at [OF i u, of k env now val] by auto
  from r4 r89 rab w67 wo show ?thesis unfolding b by blast
qed

theorem detection_protocol_witness:
  "consistent closed_device
   \<and> Open toy_env 0x220 ''gb'' ''on'' closed_device = Inr opened_device
   \<and> run toy_env [Port_write 0 0x22a 0x33] opened_device = Inr opened_device
   \<and> IO_ReadB 0x224 opened_device = Some 0x7f
   \<and> IO_WriteB toy_env 0 0x226 0x55 opened_device
        = Inr (opened_device\<lparr>cms_detect_register := 0x55\<rparr>)
   \<and> IO_ReadB 0x22b (opened_device\<lparr>cms_detect_register := 0x55\<rparr>) = Some 0x55
   \<and> IO_ReadB 0x228 opened_device = Some 0xff
   \<and> IO_ReadB 0x229 opened_device = Some 0xff
   \<and> IO_WriteB toy_env 0 0x22a 0x33 opened_device = Inr opened_device"
proof -
  have c: "consistent closed_device" by (simp add: consistent_def closed_device_def)
  have r: "run toy_env [Port_write 0 0x22a 0x33] opened_device = Inr opened_device"
    by (simp add: IO_WriteB_def handles_def WriteToDetectionPort_def opened_device_def)
  have b: "base_port opened_device = 0x220" by (simp add: opened_device_def)
  from detection_protocol [OF c Open_toy r, where now = 0 and v = "0x55" and val = "0x33"] c Open_toy r
  show ?thesis by (simp add: b)
qed

text \<open>
  C10. On a device opened as a standalone Game Blaster, after any run of events, the
  detection read handler is installed at the base port for 16 ports, and a byte read of
  base + 0 .. base + 3 is answered by it with FFh.
\<close>

theorem detection_read_covers_chip_ports:
  assumes "consistent s0"
    and "Open env port_choice ''gb'' filter_choice s0 = Inr s1"
    and "run env evs s1 = Inr s"
  shows "read_handler_for_detection s = Install (base_port s) 16
         \<and> (\<forall>k \<in> {0, 1, 2, 3}. IO_ReadB (base_port s + k) s = Some 0xff)"
proof -
  from Open_installed [OF assms(1,2)]
  have i1: "installed_at (base_port s1) True s1" and v: "base_port s1 \<in> set valid_gb_ports"
    by simp_all
  from run_installed [OF assms(3) i1] have i: "installed_at (base_port s1) True s" .
  then have b: "base_port s = base_port s1" by (simp add: installed_at_def)
  from v have u: "unat (base_port s1) \<le> 0x300"
    using valid_port_bound [of "base_port s1" True] by simp
  have "IO_ReadB (base_port s1 + k) s = Some 0xff" if "k \<in> {0, 1, 2, 3}" for k :: io_port_t
    using that detection_read_at [OF i u, of k] by auto
  with i show ?thesis by (simp add: installed_at_def b)
qed

theorem detection_read_covers_chip_ports_witness:
  "consistent closed_device
   \<and> Open toy_env 0x220 ''gb'' ''on'' closed_device = Inr opened_device
   \<and> run toy_env [Port_write 0 0x22a 0x55] opened_device = Inr opened_device
   \<and> read_handler_for_detection opened_device = Install 0x220 16
   \<and> IO_ReadB 0x220 opened_device = Some 0xff
   \<and> IO_ReadB 0x221 opened_device = Some 0xff
   \<and> IO_ReadB 0x222 opened_device = Some 0xff
   \<and> IO_ReadB 0x223 opened_device = Some 0xff"
proof -
  have c: "consistent closed_device" by (simp add: consistent_def closed_device_def)
  have r: "run toy_env [Port_write 0 0x22a 0x55] opened_device = Inr opened_device"
    by (simp add: IO_WriteB_def handles_def WriteToDetectionPort_def opened_device_def)
  have b: "base_port opened_device = 0x220" by (simp add: opened_device_def)
  from detection_read_covers_chip_ports [OF c Open_toy r] c Open_toy r show ?thesis by (simp add: b)
qed

section \<open>The render clock\<close>

text \<open>
  One pass of the loop of \<^verbatim>\<open>RenderUpToNow\<close> renders one sample and moves the clock by two
  quanta: one added by the loop, one by \<^verbatim>\<open>MaybeRenderFrame\<close>.
\<close>

lemma RenderUpToNow_loop_iteration:
  assumes "last_rendered_ms s < now"
    and "MaybeRenderFrame env zero_frame
           (s\<lparr>last_rendered_ms := last_rendered_ms s + quantum_ms (ms_per_render env)\<rparr>)
         = Inr (ready, f, s1)"
  shows "last_rendered_ms s1 = last_rendered_ms s + 2 * quantum_ms (ms_per_render env)"
    and "RenderUpToNow_loop env now s =
           RenderUpToNow_loop env now (if ready then s1\<lparr>fifo := fifo s1 @ [f]\<rparr> else s1)"
proof -
  from MaybeRenderFrame_clock [OF assms(2)]
  show "last_rendered_ms s1 = last_rendered_ms s + 2 * quantum_ms (ms_per_render env)"
    by simp
  show "RenderUpToNow_loop env now s =
           RenderUpToNow_loop env now (if ready then s1\<lparr>fifo := fifo s1 @ [f]\<rparr> else s1)"
    by (subst RenderUpToNow_loop.simps) (simp add: assms)
qed

text \<open>
  The loop never moves the clock back, and when it runs at all it stops with the clock at
  or after \<open>now\<close> and less than two quanta after it.
\<close>

lemma RenderUpToNow_loop_clock:
  "RenderUpToNow_loop env now s = Inr s' \<Longrightarrow>
     last_rendered_ms s \<le> last_rendered_ms s'
     \<and> (last_rendered_ms s < now \<longrightarrow>
           now \<le> last_rendered_ms s'
           \<and> last_rendered_ms s' < now + 2 * quantum_ms (ms_per_render env))"
proof (induction env now s rule: RenderUpToNow_loop.induct)
  case (1 env now s)
  define q where "q = quantum_ms (ms_per_render env)"
  have q: "0 < q" by (simp add: q_def quantum_ms_pos)
  show ?case
  proof (cases "last_rendered_ms s < now")
    case False
    with "1.prems" show ?thesis by (simp add: RenderUpToNow_loop.simps)
  next
    case True
    let ?s0 = "s\<lparr>last_rendered_ms := last_rendered_ms s + quantum_ms (ms_per_render env)\<rparr>"
    from True "1.prems"(1) obtain ready f s1 where
      m: "MaybeRenderFrame env zero_frame ?s0 = Inr (ready, f, s1)"
      and r: "RenderUpToNow_loop env now (if ready then s1\<lparr>fifo := fifo s1 @ [f]\<rparr> else s1) = Inr s'"
      by (subst (asm) RenderUpToNow_loop.simps) (auto split: sum.splits)
    let ?s2 = "if ready then s1\<lparr>fifo := fifo s1 @ [f]\<rparr> else s1"
    from MaybeRenderFrame_clock [OF m]
    have c: "last_rendered_ms ?s2 = last_rendered_ms s + 2 * q" by (simp add: q_def)
    from "1.IH" [OF True m refl refl r]
    have ih: "last_rendered_ms ?s2 \<le> last_rendered_ms s'"
      "last_rendered_ms ?s2 < now \<Longrightarrow>
         now \<le> last_rendered_ms s' \<and> last_rendered_ms s' < now + 2 * q"
      by (simp_all add: q_def)
    show ?thesis
    proof (cases "last_rendered_ms ?s2 < now")
      case True
      with ih c q show ?thesis by (simp add: q_def)
    next
      case False
      with r have "s' = ?s2" by (subst (asm) RenderUpToNow_loop.simps) simp
      with c False True q show ?thesis by (simp add: q_def)
    qed
  qed
qed

text \<open>
  When \<open>now\<close> is less than one quantum ahead of the clock, the loop runs once and leaves
  the clock more than one quantum after \<open>now\<close>, whatever the quantum.
\<close>

lemma RenderUpToNow_loop_overshoots:
  assumes "last_rendered_ms s < now"
    and "now < last_rendered_ms s + quantum_ms (ms_per_render env)"
    and "RenderUpToNow_loop env now s = Inr s'"
  shows "last_rendered_ms s' = last_rendered_ms s + 2 * quantum_ms (ms_per_render env)"
    and "now + quantum_ms (ms_per_render env) < last_rendered_ms s'"
proof -
  let ?q = "quantum_ms (ms_per_render env)"
  from assms(1,3) obtain ready f s1 where
    m: "MaybeRenderFrame env zero_frame (s\<lparr>last_rendered_ms := last_rendered_ms s + ?q\<rparr>)
          = Inr (ready, f, s1)"
    by (subst (asm) RenderUpToNow_loop.simps) (auto split: sum.splits)
  let ?s2 = "if ready then s1\<lparr>fifo := fifo s1 @ [f]\<rparr> else s1"
  from RenderUpToNow_loop_iteration [OF assms(1) m]
  have c: "last_rendered_ms ?s2 = last_rendered_ms s + 2 * ?q"
    and r: "RenderUpToNow_loop env now s = RenderUpToNow_loop env now ?s2"
    by simp_all
  have "\<not> last_rendered_ms ?s2 < now" using c assms(2) quantum_ms_pos [of "ms_per_render env"] by simp
  then have "RenderUpToNow_loop env now ?s2 = Inr ?s2"
    by (subst RenderUpToNow_loop.simps) simp
  with r assms(3) have "s' = ?s2" by simp
  with c show "last_rendered_ms s' = last_rendered_ms s + 2 * ?q" by simp
  with assms(2) show "now + ?q < last_rendered_ms s'" by simp
qed

text \<open>
  C1. The claim is that the catch-up loop advances the clock by one quantum for each
  rendered sample and stops at most one quantum after \<open>now\<close>. The run below is the code
  at quantum 1 ms, clock 0 and \<open>now\<close> = 1/2 ms: the loop runs once, each chip renders one
  sample, and the clock ends at 2 ms, two quanta for the one sample and 3/2 quanta
  after \<open>now\<close>.
\<close>

theorem RenderUpToNow_advances_two_quanta_per_sample:
  "quantum_ms (ms_per_render toy_env) = 1
   \<and> last_rendered_ms awake_device = 0
   \<and> devices_0 awake_device = Some \<lparr>tc_level = 0, tc_control = 0, tc_rendered = 0\<rparr>
   \<and> RenderUpToNow toy_env (1 / 2) awake_device = Inr caught_up_device
   \<and> devices_0 caught_up_device = Some \<lparr>tc_level = 0, tc_control = 0, tc_rendered = 1\<rparr>
   \<and> last_rendered_ms caught_up_device = 2
   \<and> last_rendered_ms caught_up_device
       > 1 / 2 + quantum_ms (ms_per_render toy_env)"
  by (simp add: toy_quantum RenderUpToNow_toy)
     (simp add: awake_device_def opened_device_def caught_up_device_def)

section \<open>Frames delivered by the callback\<close>

lemma AudioCallback_queued_eq:
  "channel s = Some c \<Longrightarrow>
     AudioCallback_queued env n s =
       Inr (n - length (fifo s),
            s\<lparr>channel := Some (foldl (\<lambda>c f. AddSamples_sfloat env f c) c (take n (fifo s))),
              fifo := drop n (fifo s)\<rparr>)"
proof (induction n arbitrary: s c)
  case 0
  then have "s\<lparr>channel := Some c, fifo := fifo s\<rparr> = s" by simp
  then show ?case by simp
next
  case (Suc n)
  show ?case
  proof (cases "fifo s")
    case Nil
    from Suc.prems have "s\<lparr>channel := Some c, fifo := []\<rparr> = s" by (simp add: Nil)
    then show ?thesis by (simp add: Nil)
  next
    case (Cons f rest)
    let ?s = "s\<lparr>channel := Some (AddSamples_sfloat env f c), fifo := rest\<rparr>"
    have "channel ?s = Some (AddSamples_sfloat env f c)" by simp
    from Suc.IH [OF this] Suc.prems show ?thesis by (simp add: Cons)
  qed
qed

lemma MaybeRenderFrame_channel:
  "MaybeRenderFrame env frame (s\<lparr>channel := x\<rparr>) =
     (case MaybeRenderFrame env frame s of
        Inl e \<Rightarrow> Inl e
      | Inr (ready, f, s') \<Rightarrow> Inr (ready, f, s'\<lparr>channel := x\<rparr>))"
  by (simp add: MaybeRenderFrame_def Let_def split_beta split: option.splits)

lemma MaybeRenderFrame_keeps_channel:
  assumes "MaybeRenderFrame env frame s = Inr (ready, f, s')"
  shows "channel s' = channel s" and "fifo s' = fifo s"
  using MaybeRenderFrame_changes [OF assms] by auto

lemma live_render_channel:
  "live_render env n (s\<lparr>channel := x\<rparr>) =
     (case live_render env n s of
        Inl e \<Rightarrow> Inl e
      | Inr (fs, s') \<Rightarrow> Inr (fs, s'\<lparr>channel := x\<rparr>))"
proof (induction n arbitrary: s)
  case 0
  show ?case by simp
next
  case (Suc n)
  show ?case
    by (simp add: MaybeRenderFrame_channel Suc.IH split: sum.splits prod.splits)
qed

lemma live_render_length:
  "live_render env n s = Inr (fs, s') \<Longrightarrow> length fs \<le> n"
proof (induction n arbitrary: s fs)
  case 0
  then show ?case by simp
next
  case (Suc n)
  from Suc.prems obtain ready f s1 fs1 where
    "live_render env n s1 = Inr (fs1, s')" and "fs = (if ready then [f] else []) @ fs1"
    by (auto split: sum.splits prod.splits)
  with Suc.IH [of s1 fs1] show ?case by simp
qed

lemma AudioCallback_render_eq:
  "channel s = Some c \<Longrightarrow>
     AudioCallback_render env n s =
       (case live_render env n s of
          Inl e \<Rightarrow> Inl e
        | Inr (fs, s') \<Rightarrow>
            Inr (s'\<lparr>channel := Some (foldl (\<lambda>c f. AddSamples_sfloat env f c) c fs)\<rparr>))"
proof (induction n arbitrary: s c)
  case 0
  then have "s\<lparr>channel := Some c\<rparr> = s" by simp
  then show ?case by simp
next
  case (Suc n)
  show ?case
  proof (cases "MaybeRenderFrame env zero_frame s")
    case (Inl e)
    then show ?thesis by simp
  next
    case (Inr x)
    then obtain ready f s1 where m: "MaybeRenderFrame env zero_frame s = Inr (ready, f, s1)"
      by (cases x) auto
    from MaybeRenderFrame_keeps_channel(1) [OF m] Suc.prems
    have c1: "channel s1 = Some c" by simp
    show ?thesis
    proof (cases ready)
      case False
      with m Suc.IH [OF c1] show ?thesis by (simp split: sum.splits prod.splits)
    next
      case True
      let ?s = "s1\<lparr>channel := Some (AddSamples_sfloat env f c)\<rparr>"
      have "channel ?s = Some (AddSamples_sfloat env f c)" by simp
      from Suc.IH [OF this] m c1 True show ?thesis
        by (simp add: live_render_channel split: sum.splits prod.splits)
    qed
  qed
qed

text \<open>
  C2, as the code has it. For a request of \<open>N\<close> frames on a device with its channel,
  \<^verbatim>\<open>AudioCallback\<close> hands the first \<open>min N (length fifo)\<close> queued frames to the channel in
  queue order and removes them from the queue, then makes one render step for each frame
  still requested and hands the channel the frame of every step that is ready, nothing
  for a step that is not, and at the end sets the clock to \<open>now\<close>. The channel thus
  receives at most \<open>N\<close> frames.
\<close>

theorem AudioCallback_drains_then_renders:
  assumes "channel s = Some c"
  shows "AudioCallback env now requested_frames s =
           (case live_render env (unat requested_frames - length (fifo s))
                   (s\<lparr>fifo := drop (unat requested_frames) (fifo s)\<rparr>) of
              Inl e \<Rightarrow> Inl e
            | Inr (live, s') \<Rightarrow>
                Inr (s'\<lparr>channel :=
                          Some (foldl (\<lambda>c f. AddSamples_sfloat env f c) c
                                  (take (unat requested_frames) (fifo s) @ live)),
                        last_rendered_ms := now\<rparr>))
         \<and> (\<forall>live s'.
               live_render env (unat requested_frames - length (fifo s))
                 (s\<lparr>fifo := drop (unat requested_frames) (fifo s)\<rparr>) = Inr (live, s')
               \<longrightarrow> length (take (unat requested_frames) (fifo s) @ live)
                     \<le> unat requested_frames)"
proof -
  define n where "n = unat requested_frames"
  define c1 where "c1 = foldl (\<lambda>c f. AddSamples_sfloat env f c) c (take n (fifo s))"
  define s1 where "s1 = s\<lparr>fifo := drop n (fifo s)\<rparr>"
  have q: "AudioCallback_queued env n s = Inr (n - length (fifo s), s1\<lparr>channel := Some c1\<rparr>)"
    using AudioCallback_queued_eq [OF assms, of env n]
    by (simp add: s1_def c1_def)
  have r: "AudioCallback_render env (n - length (fifo s)) (s1\<lparr>channel := Some c1\<rparr>) =
             (case live_render env (n - length (fifo s)) s1 of
                Inl e \<Rightarrow> Inl e
              | Inr (fs, s') \<Rightarrow>
                  Inr (s'\<lparr>channel := Some (foldl (\<lambda>c f. AddSamples_sfloat env f c) c1 fs)\<rparr>))"
    using AudioCallback_render_eq [of "s1\<lparr>channel := Some c1\<rparr>" c1 env "n - length (fifo s)"]
    by (simp add: live_render_channel split: sum.splits prod.splits)
  have a: "AudioCallback env now requested_frames s =
           (case live_render env (n - length (fifo s)) s1 of
              Inl e \<Rightarrow> Inl e
            | Inr (live, s') \<Rightarrow>
                Inr (s'\<lparr>channel :=
                          Some (foldl (\<lambda>c f. AddSamples_sfloat env f c) c (take n (fifo s) @ live)),
                        last_rendered_ms := now\<rparr>))"
  proof (cases "live_render env (n - length (fifo s)) s1")
    case (Inl e)
    then show ?thesis
      unfolding AudioCallback_def n_def [symmetric] by (simp add: assms q r)
  next
    case (Inr x)
    then obtain live s' where "live_render env (n - length (fifo s)) s1 = Inr (live, s')"
      by (cases x) auto
    then show ?thesis
      unfolding AudioCallback_def n_def [symmetric] by (simp add: assms q r) (simp add: c1_def)
  qed
  have b: "length (take n (fifo s) @ live) \<le> n"
    if "live_render env (n - length (fifo s)) s1 = Inr (live, s')" for live s'
    using live_render_length [OF that] by simp
  from a b show ?thesis unfolding n_def s1_def by blast
qed

lemma live_render_toy:
  "live_render toy_env (Suc 0) (queued_device\<lparr>fifo := []\<rparr>) =
     Inr ([\<lparr>left = 97, right = 97\<rparr>],
          queued_device
            \<lparr>fifo := [],
             devices_0 := Some \<lparr>tc_level = 100, tc_control = 0, tc_rendered = 1\<rparr>,
             devices_1 := Some \<lparr>tc_level = - 3, tc_control = 0, tc_rendered = 1\<rparr>,
             resamplers_0 := Some \<lparr>tr_phase = 0, tr_held = 97\<rparr>,
             resamplers_1 := Some \<lparr>tr_phase = 0, tr_held = 97\<rparr>,
             last_rendered_ms := 1\<rparr>)"
  by (simp add: MaybeRenderFrame_def queued_device_def sounding_device_def awake_device_def
        opened_device_def toy_env_def toy_input_def quantum_ms.rep_eq one_ms.rep_eq)

theorem AudioCallback_drains_then_renders_witness:
  "channel queued_device = Some awake_channel
   \<and> AudioCallback toy_env 7 3 queued_device =
       Inr (queued_device
              \<lparr>fifo := [],
               devices_0 := Some \<lparr>tc_level = 100, tc_control = 0, tc_rendered = 1\<rparr>,
               devices_1 := Some \<lparr>tc_level = - 3, tc_control = 0, tc_rendered = 1\<rparr>,
               resamplers_0 := Some \<lparr>tr_phase = 0, tr_held = 97\<rparr>,
               resamplers_1 := Some \<lparr>tr_phase = 0, tr_held = 97\<rparr>,
               channel := Some (awake_channel
                  \<lparr>tm_received := [\<lparr>left = 1, right = 1\<rparr>, \<lparr>left = 2, right = 2\<rparr>,
                                   \<lparr>left = 97, right = 97\<rparr>]\<rparr>),
               last_rendered_ms := 7\<rparr>)"
proof -
  have c: "channel queued_device = Some awake_channel"
    by (simp add: queued_device_def sounding_device_def awake_device_def)
  have f: "fifo queued_device = [\<lparr>left = 1, right = 1\<rparr>, \<lparr>left = 2, right = 2\<rparr>]"
    by (simp add: queued_device_def)
  have p: "AddSamples_sfloat toy_env x ch = ch\<lparr>tm_received := tm_received ch @ [x]\<rparr>" for x ch
    by (simp add: toy_env_def)
  have n: "unat (3 :: 16 word) - length (fifo queued_device) = Suc 0"
    and d: "drop (unat (3 :: 16 word)) (fifo queued_device) = []"
    by (simp_all add: f)
  from AudioCallback_drains_then_renders [OF c, of toy_env 7 3, THEN conjunct1, unfolded n d live_render_toy]
  have "AudioCallback toy_env 7 3 queued_device =
       Inr (queued_device
              \<lparr>fifo := [],
               devices_0 := Some \<lparr>tc_level = 100, tc_control = 0, tc_rendered = 1\<rparr>,
               devices_1 := Some \<lparr>tc_level = - 3, tc_control = 0, tc_rendered = 1\<rparr>,
               resamplers_0 := Some \<lparr>tr_phase = 0, tr_held = 97\<rparr>,
               resamplers_1 := Some \<lparr>tr_phase = 0, tr_held = 97\<rparr>,
               channel := Some (awake_channel
                  \<lparr>tm_received := [\<lparr>left = 1, right = 1\<rparr>, \<lparr>left = 2, right = 2\<rparr>,
                                   \<lparr>left = 97, right = 97\<rparr>]\<rparr>),
               last_rendered_ms := 7\<rparr>)"
    by (simp add: f p awake_channel_def)
  with c show ?thesis by blast
qed

text \<open>
  C2 as stated fails: asked for one frame with an empty queue, the callback makes one
  render step, the resamplers are not ready, and the channel has received no frame when
  the callback returns.
\<close>

theorem AudioCallback_delivers_fewer_frames:
  "fifo awake_device = []
   \<and> channel awake_device = Some awake_channel
   \<and> tm_received awake_channel = []
   \<and> AudioCallback toy_env 0 1 awake_device = Inr (caught_up_device\<lparr>last_rendered_ms := 0\<rparr>)
   \<and> channel (caught_up_device\<lparr>last_rendered_ms := 0\<rparr>) = Some awake_channel"
proof -
  have m: "MaybeRenderFrame toy_env zero_frame awake_device
             = Inr (False, zero_frame, caught_up_device\<lparr>last_rendered_ms := 1\<rparr>)"
    by (simp add: MaybeRenderFrame_def awake_device_def opened_device_def caught_up_device_def
          toy_env_def toy_input_def quantum_ms.rep_eq one_ms.rep_eq)
  have a: "fifo awake_device = []" "channel awake_device = Some awake_channel"
    by (simp_all add: awake_device_def opened_device_def)
  have "AudioCallback toy_env 0 1 awake_device = Inr (caught_up_device\<lparr>last_rendered_ms := 0\<rparr>)"
    by (simp add: AudioCallback_def a m)
  moreover have "tm_received awake_channel = []" by (simp add: awake_channel_def)
  moreover have "channel (caught_up_device\<lparr>last_rendered_ms := 0\<rparr>) = Some awake_channel"
    by (simp add: caught_up_device_def awake_device_def)
  ultimately show ?thesis using a by blast
qed

end
